theory Spec2Isabelle
  imports Main "HOL-Library.Stream"
begin

section \<open>make-data-file: a shallow embedding\<close>

text \<open>
  The program \<^verbatim>\<open>make-data-file.py\<close> parses six options, builds a row printer and
  writes \<^verbatim>\<open>count\<close> lines. Everything it does beyond computing strings is an effect:
  it draws from Python's \<^verbatim>\<open>random\<close> module, it increments the function attribute
  \<^verbatim>\<open>_seq_int.N\<close> and it prints. The embedding threads these through a record, the
  \<open>world\<close>.
\<close>

subsection \<open>Python values and library functions\<close>

text \<open>
  Python's \<^verbatim>\<open>float\<close> is kept abstract as a type variable \<open>'f\<close>. What the library
  computes on floats is taken as a parameter: \<^verbatim>\<open>str\<close> on a float,
  \<^verbatim>\<open>random.gauss(mu, sigma)\<close> as a function of \<open>mu\<close>, \<open>sigma\<close> and the generator's
  standard normal noise, \<^verbatim>\<open>float\<close> on a string (\<open>None\<close> is its ValueError), and the
  two float literals of the source, \<^verbatim>\<open>0.0\<close> and \<^verbatim>\<open>1.0\<close>. The last parameter is the
  help message that argparse formats for this parser, as the lines it writes.
\<close>

record 'f pylib =
  float_str :: "'f \<Rightarrow> string"
  gauss :: "'f \<Rightarrow> 'f \<Rightarrow> 'f \<Rightarrow> 'f"
  float_of_str :: "string \<Rightarrow> 'f option"
  float_0_0 :: "'f"
  float_1_0 :: "'f"
  format_help :: "string list"

text \<open>
  The world: the attribute \<^verbatim>\<open>_seq_int.N\<close>, the random generator and standard output.
  The generator is a tape of raw draws for the integer-valued calls and a tape of noise
  for \<^verbatim>\<open>random.gauss\<close>; each call consumes one cell. Standard output is the list of
  the records written so far: one per call of \<^verbatim>\<open>print\<close>, and the lines of the help
  message when the parser prints it.
\<close>

record 'f world =
  seq_N :: int
  ints :: "nat stream"
  noise :: "'f stream"
  stdout :: "string list"

text \<open>Module initialisation: \<^verbatim>\<open>_seq_int.N = -1\<close>, nothing printed.\<close>

definition initial_world :: "nat stream \<Rightarrow> 'f stream \<Rightarrow> 'f world" where
  "initial_world raw zs = \<lparr>seq_N = - 1, ints = raw, noise = zs, stdout = []\<rparr>"

text \<open>
  \<^verbatim>\<open>random.randint(a, b)\<close> returns an integer of \<open>[a, b]\<close>; every call site passes
  constants with \<open>a \<le> b\<close>.
\<close>

definition randint :: "int \<Rightarrow> int \<Rightarrow> 'f world \<Rightarrow> int \<times> 'f world" where
  "randint a b w =
     (a + int (shd (ints w) mod nat (b - a + 1)), w\<lparr>ints := stl (ints w)\<rparr>)"

text \<open>
  \<^verbatim>\<open>random.choice(seq)\<close> returns \<^verbatim>\<open>seq[i]\<close> for an index \<open>i\<close> below \<^verbatim>\<open>len(seq)\<close>;
  the only call site passes the four-element module constant.
\<close>

definition choice :: "'a list \<Rightarrow> 'f world \<Rightarrow> 'a \<times> 'f world" where
  "choice seq w = (seq ! (shd (ints w) mod length seq), w\<lparr>ints := stl (ints w)\<rparr>)"

definition chr :: "int \<Rightarrow> char" where
  "chr n = char_of n"

definition ord :: "char \<Rightarrow> int" where
  "ord c = of_char c"

text \<open>\<^verbatim>\<open>str\<close> on an integer: decimal digits, a minus sign in front if negative.\<close>

fun str_nat :: "nat \<Rightarrow> string" where
  "str_nat n =
     (if n < 10 then [chr (ord CHR ''0'' + int n)]
      else str_nat (n div 10) @ [chr (ord CHR ''0'' + int (n mod 10))])"

declare str_nat.simps [simp del]

definition str_int :: "int \<Rightarrow> string" where
  "str_int i = (if i < 0 then CHR ''-'' # str_nat (nat (- i)) else str_nat (nat i))"

text \<open>\<^verbatim>\<open>sep.join(xs)\<close>.\<close>

fun join :: "string \<Rightarrow> string list \<Rightarrow> string" where
  "join sep [] = []"
| "join sep [x] = x"
| "join sep (x # y # ys) = x @ sep @ join sep (y # ys)"

text \<open>\<^verbatim>\<open>range(n)\<close> is \<open>0, \<dots>, n - 1\<close>, and empty when \<open>n \<le> 0\<close>.\<close>

definition range_py :: "int \<Rightarrow> int list" where
  "range_py n = map int [0..<nat n]"

text \<open>\<^verbatim>\<open>print(s)\<close> writes one record.\<close>

definition print :: "string \<Rightarrow> 'f world \<Rightarrow> 'f world" where
  "print s w = w\<lparr>stdout := stdout w @ [s]\<rparr>"

subsection \<open>The filler generators\<close>

text \<open>
  The entries of \<^verbatim>\<open>RANDOM_CTORS\<close> are function objects; they are tags here, and
  \<open>call\<close> runs the tagged function. A generator returns an \<^verbatim>\<open>int\<close> or a \<^verbatim>\<open>str\<close>.
\<close>

datatype ctor = random_int | seq_int | random_str

datatype pyval = PyInt int | PyStr string

fun str :: "pyval \<Rightarrow> string" where
  "str (PyInt i) = str_int i"
| "str (PyStr s) = s"

definition random_int_call :: "'f world \<Rightarrow> int \<times> 'f world" where
  "random_int_call w = randint (- 1000) 1000 w"

definition seq_int_call :: "'f world \<Rightarrow> int \<times> 'f world" where
  "seq_int_call w = (let w' = w\<lparr>seq_N := seq_N w + 1\<rparr> in (seq_N w', w'))"

text \<open>The comprehension \<^verbatim>\<open>[chr(random.randint(ord('a'), ord('z'))) for x in range(l)]\<close>.\<close>

fun random_chars :: "nat \<Rightarrow> 'f world \<Rightarrow> string \<times> 'f world" where
  "random_chars 0 w = ([], w)"
| "random_chars (Suc n) w =
     (let (c, w1) = randint (ord CHR ''a'') (ord CHR ''z'') w;
          (cs, w2) = random_chars n w1
      in (chr c # cs, w2))"

definition random_str_call :: "'f world \<Rightarrow> string \<times> 'f world" where
  "random_str_call w =
     (let (l, w1) = randint 1 8 w;
          (cs, w2) = random_chars (length (range_py l)) w1
      in (join [] [[c]. c \<leftarrow> cs], w2))"

fun call :: "ctor \<Rightarrow> 'f world \<Rightarrow> pyval \<times> 'f world" where
  "call random_int w = (let (i, w') = random_int_call w in (PyInt i, w'))"
| "call seq_int w = (let (i, w') = seq_int_call w in (PyInt i, w'))"
| "call random_str w = (let (s, w') = random_str_call w in (PyStr s, w'))"

definition RANDOM_CTORS :: "ctor list" where
  "RANDOM_CTORS = [random_int, seq_int, random_str, random_str]"

subsection \<open>main\<close>

text \<open>
  The namespace that \<^verbatim>\<open>parse_args\<close> returns: one attribute for each option.
\<close>

record 'f args =
  count :: int
  distr :: string
  mean :: "'f"
  stdev :: "'f"
  csv_col :: "int option"
  csv_col_max :: int

text \<open>
  The command line: the options given, in their order, each a recognised option with its
  value after argparse's type conversion. \<^verbatim>\<open>--count 5\<close>, \<^verbatim>\<open>-n 5\<close> and
  \<^verbatim>\<open>--count=5\<close> are all \<open>Count 5\<close>; \<open>Help\<close> is \<^verbatim>\<open>-h\<close> or \<^verbatim>\<open>--help\<close>, the option
  that \<^verbatim>\<open>ArgumentParser\<close> adds by default. A command line with an unknown option, a
  missing value or a value that does not convert to its type is not of this type.
\<close>

datatype 'f opt =
  Help | Count int | Distr string | Mean "'f" | Stdev "'f" | Csv_col int | Csv_col_max int

text \<open>
  \<open>SystemExit c\<close> is the parser leaving the process with status \<open>c\<close>: 2 from
  \<^verbatim>\<open>parser.error\<close>, which writes to standard error, 0 after the help message;
  \<open>AssertionError\<close> is the \<^verbatim>\<open>raise\<close> of \<^verbatim>\<open>main\<close>.
\<close>

datatype error = SystemExit int | AssertionError string

text \<open>The defaults of the six \<^verbatim>\<open>add_argument\<close> calls.\<close>

definition defaults :: "'f pylib \<Rightarrow> 'f args" where
  "defaults lib =
     \<lparr>count = 1000, distr = ''gauss'', mean = float_0_0 lib, stdev = float_1_0 lib,
      csv_col = None, csv_col_max = 8\<rparr>"

text \<open>The store action of each option; the help action stores nothing.\<close>

fun store :: "'f args \<Rightarrow> 'f opt \<Rightarrow> 'f args" where
  "store ns Help = ns"
| "store ns (Count n) = ns\<lparr>count := n\<rparr>"
| "store ns (Distr s) = ns\<lparr>distr := s\<rparr>"
| "store ns (Mean x) = ns\<lparr>mean := x\<rparr>"
| "store ns (Stdev x) = ns\<lparr>stdev := x\<rparr>"
| "store ns (Csv_col k) = ns\<lparr>csv_col := Some k\<rparr>"
| "store ns (Csv_col_max m) = ns\<lparr>csv_col_max := m\<rparr>"

text \<open>\<^verbatim>\<open>parser.print_help()\<close> writes the help message to standard output.\<close>

definition print_help :: "'f pylib \<Rightarrow> 'f world \<Rightarrow> 'f world" where
  "print_help lib w = w\<lparr>stdout := stdout w @ format_help lib\<rparr>"

text \<open>
  argparse consumes the options from left to right and runs each one's action as it meets
  it. The help action prints the help message and exits with status 0. The value of
  \<^verbatim>\<open>--distr\<close> is checked against \<^verbatim>\<open>choices=["gauss"]\<close> before it is stored, and a
  value outside is \<^verbatim>\<open>parser.error\<close>. Every other value is stored as it is.
\<close>

fun parse_options :: "'f pylib \<Rightarrow> 'f opt list \<Rightarrow> 'f args \<Rightarrow> 'f world
    \<Rightarrow> (error + 'f args) \<times> 'f world" where
  "parse_options lib [] ns w = (Inr ns, w)"
| "parse_options lib (Help # os) ns w = (Inl (SystemExit 0), print_help lib w)"
| "parse_options lib (Distr s # os) ns w =
     (if s \<in> set [''gauss''] then parse_options lib os (store ns (Distr s)) w
      else (Inl (SystemExit 2), w))"
| "parse_options lib (Count n # os) ns w = parse_options lib os (store ns (Count n)) w"
| "parse_options lib (Mean x # os) ns w = parse_options lib os (store ns (Mean x)) w"
| "parse_options lib (Stdev x # os) ns w = parse_options lib os (store ns (Stdev x)) w"
| "parse_options lib (Csv_col k # os) ns w = parse_options lib os (store ns (Csv_col k)) w"
| "parse_options lib (Csv_col_max m # os) ns w =
     parse_options lib os (store ns (Csv_col_max m)) w"

text \<open>\<^verbatim>\<open>parser.parse_args()\<close>.\<close>

definition parse_args :: "'f pylib \<Rightarrow> 'f opt list \<Rightarrow> 'f world
    \<Rightarrow> (error + 'f args) \<times> 'f world" where
  "parse_args lib argv w = parse_options lib argv (defaults lib) w"

text \<open>The closure \<^verbatim>\<open>rng\<close>: \<^verbatim>\<open>_gauss(_mean, _stdev)\<close>.\<close>

definition rng :: "'f pylib \<Rightarrow> 'f args \<Rightarrow> 'f world \<Rightarrow> 'f \<times> 'f world" where
  "rng lib a w =
     (gauss lib (mean a) (stdev a) (shd (noise w)), w\<lparr>noise := stl (noise w)\<rparr>)"

text \<open>
  The comprehension that builds \<^verbatim>\<open>other_ctors\<close>, over the indices of
  \<^verbatim>\<open>range(args.csv_col_max)\<close>: a random entry of \<^verbatim>\<open>RANDOM_CTORS\<close> where
  \<^verbatim>\<open>i != args.csv_col\<close>, else \<^verbatim>\<open>None\<close>.
\<close>

fun other_ctors_of :: "int list \<Rightarrow> int \<Rightarrow> 'f world \<Rightarrow> ctor option list \<times> 'f world" where
  "other_ctors_of [] k w = ([], w)"
| "other_ctors_of (i # is) k w =
     (if i \<noteq> k then
        (let (c, w1) = choice RANDOM_CTORS w;
             (cs, w2) = other_ctors_of is k w1
         in (Some c # cs, w2))
      else
        (let (cs, w2) = other_ctors_of is k w in (None # cs, w2)))"

definition other_ctors :: "'f args \<Rightarrow> int \<Rightarrow> 'f world \<Rightarrow> ctor option list \<times> 'f world" where
  "other_ctors a k w = other_ctors_of (range_py (csv_col_max a)) k w"

text \<open>
  The comprehension \<^verbatim>\<open>data\<close> of the CSV \<^verbatim>\<open>print_one\<close>:
  \<^verbatim>\<open>str(ctor())\<close> where the entry is a generator, \<^verbatim>\<open>str(x)\<close> where it is \<^verbatim>\<open>None\<close>.
\<close>

fun row_data :: "'f pylib \<Rightarrow> ctor option list \<Rightarrow> 'f \<Rightarrow> 'f world \<Rightarrow> string list \<times> 'f world" where
  "row_data lib [] x w = ([], w)"
| "row_data lib (Some c # cs) x w =
     (let (v, w1) = call c w;
          (ds, w2) = row_data lib cs x w1
      in (str v # ds, w2))"
| "row_data lib (None # cs) x w =
     (let (ds, w2) = row_data lib cs x w in (float_str lib x # ds, w2))"

text \<open>The two definitions of \<^verbatim>\<open>print_one\<close>.\<close>

definition print_one_plain :: "'f pylib \<Rightarrow> 'f \<Rightarrow> 'f world \<Rightarrow> 'f world" where
  "print_one_plain lib x w = print (float_str lib x) w"

definition print_one_csv :: "'f pylib \<Rightarrow> ctor option list \<Rightarrow> 'f \<Rightarrow> 'f world \<Rightarrow> 'f world" where
  "print_one_csv lib other x w =
     (let (data, w1) = row_data lib other x w in print (join '','' data) w1)"

text \<open>
  The loop \<^verbatim>\<open>for x in range(args.count): print_one(rng())\<close>, over the number of
  iterations left.
\<close>

fun for_range :: "nat \<Rightarrow> ('f world \<Rightarrow> 'f \<times> 'f world) \<Rightarrow> ('f \<Rightarrow> 'f world \<Rightarrow> 'f world)
    \<Rightarrow> 'f world \<Rightarrow> 'f world" where
  "for_range 0 sample emit w = w"
| "for_range (Suc n) sample emit w =
     (let (x, w1) = sample w in for_range n sample emit (emit x w1))"

text \<open>
  \<^verbatim>\<open>main\<close>: the first statements build the parser and call \<^verbatim>\<open>parse_args\<close>; the rest,
  \<open>main_with\<close>, runs with the namespace \<^verbatim>\<open>args\<close>.
\<close>

definition main_with :: "'f pylib \<Rightarrow> 'f args \<Rightarrow> 'f world \<Rightarrow> (error + unit) \<times> 'f world" where
  "main_with lib a w =
     (if distr a = ''gauss'' then
        (case csv_col a of
           None \<Rightarrow>
             (Inr (), for_range (length (range_py (count a))) (rng lib a)
                        (print_one_plain lib) w)
         | Some k \<Rightarrow>
             (let (other, w1) = other_ctors a k w
              in (Inr (), for_range (length (range_py (count a))) (rng lib a)
                            (print_one_csv lib other) w1)))
      else (Inl (AssertionError (''Invalid distr '' @ [CHR 0x27] @ distr a @ [CHR 0x27])), w))"

definition main :: "'f pylib \<Rightarrow> 'f opt list \<Rightarrow> 'f world \<Rightarrow> (error + unit) \<times> 'f world" where
  "main lib argv w =
     (case parse_args lib argv w of
        (Inl e, w') \<Rightarrow> (Inl e, w')
      | (Inr a, w') \<Rightarrow> main_with lib a w')"

text \<open>
  The status the process exits with: 0 when \<^verbatim>\<open>main\<close> returns, the code of a
  \<^verbatim>\<open>SystemExit\<close>, 1 for an exception that nothing catches.
\<close>

fun exit_status :: "error + unit \<Rightarrow> int" where
  "exit_status (Inr u) = 0"
| "exit_status (Inl (SystemExit c)) = c"
| "exit_status (Inl (AssertionError m)) = 1"

subsection \<open>Notions the properties are stated with\<close>

text \<open>One iteration of the loop: draw a sample, then emit it.\<close>

definition sample_emit :: "('f world \<Rightarrow> 'f \<times> 'f world) \<Rightarrow> ('f \<Rightarrow> 'f world \<Rightarrow> 'f world)
    \<Rightarrow> 'f world \<Rightarrow> 'f world" where
  "sample_emit sample emit w = (let (x, w1) = sample w in emit x w1)"

text \<open>
  \<^verbatim>\<open>line.split(",")\<close>, and then the list \<^verbatim>\<open>data\<close> that the CSV \<^verbatim>\<open>print_one\<close>
  joins when an iteration of the loop starts in world \<open>w\<close>.
\<close>

fun split_comma :: "string \<Rightarrow> string list" where
  "split_comma [] = [[]]"
| "split_comma (c # cs) =
     (if c = CHR '','' then [] # split_comma cs
      else (case split_comma cs of [] \<Rightarrow> [[c]] | f # fs \<Rightarrow> (c # f) # fs))"

definition row_of :: "'f pylib \<Rightarrow> 'f args \<Rightarrow> ctor option list \<Rightarrow> 'f world \<Rightarrow> string list" where
  "row_of lib a other w = (let (x, w1) = rng lib a w in fst (row_data lib other x w1))"

text \<open>The records written to standard output between two worlds.\<close>

definition emitted :: "'f world \<Rightarrow> 'f world \<Rightarrow> string list" where
  "emitted w w' = drop (length (stdout w)) (stdout w')"

text \<open>
  \<open>n\<close> consecutive invocations of \<^verbatim>\<open>_seq_int\<close>, and the fields of a row that stand in
  the columns whose plan entry is \<^verbatim>\<open>_seq_int\<close>, from left to right.
\<close>

fun seq_int_calls :: "nat \<Rightarrow> 'f world \<Rightarrow> int list \<times> 'f world" where
  "seq_int_calls 0 w = ([], w)"
| "seq_int_calls (Suc n) w =
     (let (v, w1) = seq_int_call w;
          (vs, w2) = seq_int_calls n w1
      in (v # vs, w2))"

definition counter_fields :: "ctor option list \<Rightarrow> string list \<Rightarrow> string list" where
  "counter_fields plan fs = map snd (filter (\<lambda>(p, f). p = Some seq_int) (zip plan fs))"

text \<open>
  What stops the parser: the help option, or a \<^verbatim>\<open>--distr\<close> value outside the choices.
  A command line is formed when nothing in it stops the parser. The namespace of a
  command line is what its store actions leave of the defaults, and \<open>argv_of\<close> is a
  command line that spells a namespace out.
\<close>

fun is_help :: "'f opt \<Rightarrow> bool" where
  "is_help Help = True"
| "is_help opt = False"

fun bad_distr :: "'f opt \<Rightarrow> bool" where
  "bad_distr (Distr s) = (s \<notin> set [''gauss''])"
| "bad_distr opt = False"

definition formed :: "'f opt list \<Rightarrow> bool" where
  "formed argv = list_all (\<lambda>opt. \<not> is_help opt \<and> \<not> bad_distr opt) argv"

definition namespace :: "'f pylib \<Rightarrow> 'f opt list \<Rightarrow> 'f args" where
  "namespace lib argv = foldl store (defaults lib) argv"

definition argv_of :: "'f args \<Rightarrow> 'f opt list" where
  "argv_of a =
     [Count (count a), Distr (distr a), Mean (mean a), Stdev (stdev a),
      Csv_col_max (csv_col_max a)]
     @ (case csv_col a of None \<Rightarrow> [] | Some k \<Rightarrow> [Csv_col k])"

text \<open>
  The world in which the generator of column \<open>i\<close> is called for row \<open>j\<close>, when the loop
  starts in \<open>w1\<close>: \<open>j\<close> rows have been emitted, the sample of row \<open>j\<close> has been drawn
  and the columns before \<open>i\<close> have been filled.
\<close>

definition cell_world :: "'f pylib \<Rightarrow> 'f args \<Rightarrow> ctor option list \<Rightarrow> 'f world \<Rightarrow> nat \<Rightarrow> nat
    \<Rightarrow> 'f world" where
  "cell_world lib a plan w1 j i =
     (let wj = (sample_emit (rng lib a) (print_one_csv lib plan) ^^ j) w1;
          (x, w2) = rng lib a wj
      in snd (row_data lib (take i plan) x w2))"

subsection \<open>A concrete run\<close>

text \<open>
  A small float library to run the program on: the two-element field, with
  \<open>mu + z * sigma\<close> computed there, printed as \<^verbatim>\<open>0.0\<close> and \<^verbatim>\<open>1.0\<close>. The command line
  is the specification's example \<^verbatim>\<open>--count 3 --csv-col 1 --csv-col-max 3\<close>, which the
  parser turns into the namespace \<open>example_args\<close>; the raw draws are \<open>0, 1, 2, \<dots>\<close> and
  the noise alternates.
\<close>

definition bit_lib :: "bool pylib" where
  "bit_lib =
     \<lparr>float_str = (\<lambda>b. if b then ''1.0'' else ''0.0''),
      gauss = (\<lambda>mu sigma z. mu \<noteq> (z \<and> sigma)),
      float_of_str = (\<lambda>s. if s = ''1.0'' then Some True
                          else if s = ''0.0'' then Some False else None),
      float_0_0 = False,
      float_1_0 = True,
      format_help = [''usage: make-data-file [-h] [--count COUNT]'']\<rparr>"

definition example_argv :: "bool opt list" where
  "example_argv = [Count 3, Csv_col 1, Csv_col_max 3]"

definition example_args :: "bool args" where
  "example_args =
     \<lparr>count = 3, distr = ''gauss'', mean = False, stdev = True,
      csv_col = Some 1, csv_col_max = 3\<rparr>"

definition example_world :: "bool world" where
  "example_world = initial_world (siterate Suc 0) (siterate Not True)"

section \<open>Lemmas\<close>

subsection \<open>Library functions and generators\<close>

lemma for_range_funpow: "for_range n sample emit w = (sample_emit sample emit ^^ n) w"
  by (induction n arbitrary: w) (simp_all add: sample_emit_def funpow_swap1 case_prod_beta)

lemma length_range_py: "length (range_py n) = nat n"
  by (simp add: range_py_def)

lemma randint_frame:
  "seq_N (snd (randint a b w)) = seq_N w"
  "noise (snd (randint a b w)) = noise w"
  "stdout (snd (randint a b w)) = stdout w"
  "ints (snd (randint a b w)) = stl (ints w)"
  by (simp_all add: randint_def)

lemma randint_bounds: "a \<le> b \<Longrightarrow> a \<le> fst (randint a b w) \<and> fst (randint a b w) \<le> b"
proof -
  assume ab: "a \<le> b"
  have "shd (ints w) mod nat (b - a + 1) < nat (b - a + 1)" using ab by simp
  then have "int (shd (ints w) mod nat (b - a + 1)) < b - a + 1" by linarith
  then show ?thesis unfolding randint_def fst_conv by linarith
qed

lemma random_chars_frame:
  "seq_N (snd (random_chars n w)) = seq_N w \<and> noise (snd (random_chars n w)) = noise w
   \<and> stdout (snd (random_chars n w)) = stdout w \<and> length (fst (random_chars n w)) = n"
  by (induction n arbitrary: w) (simp_all add: randint_frame case_prod_beta)

lemma split_comma_free: "CHR '','' \<notin> set s \<Longrightarrow> split_comma s = [s]"
  by (induction s) auto

lemma split_comma_append:
  "CHR '','' \<notin> set s \<Longrightarrow> split_comma (s @ CHR '','' # t) = s # split_comma t"
  by (induction s) auto

lemma split_comma_join:
  "fs \<noteq> [] \<Longrightarrow> \<forall>f \<in> set fs. CHR '','' \<notin> set f \<Longrightarrow> split_comma (join '','' fs) = fs"
proof (induction "'',''" fs rule: join.induct)
  case 1
  then show ?case by simp
next
  case (2 x)
  then show ?case by (simp add: split_comma_free)
next
  case (3 x y ys)
  then show ?case by (simp add: split_comma_append)
qed

lemma ord_chr: "0 \<le> n \<Longrightarrow> n < 256 \<Longrightarrow> ord (chr n) = n"
  by (simp add: ord_def chr_def)

lemma ord_consts: "ord CHR ''0'' = 48" "ord CHR ''a'' = 97" "ord CHR ''z'' = 122" "ord CHR '','' = 44"
  by (simp_all add: ord_def)

lemma chr_not_comma: "45 \<le> n \<Longrightarrow> n < 256 \<Longrightarrow> chr n \<noteq> CHR '',''"
proof
  assume n: "45 \<le> n" "n < 256" and eq: "chr n = CHR '',''"
  have "ord (chr n) = n" using n by (simp add: ord_chr)
  then show False using n eq by (simp add: ord_consts)
qed

lemma str_nat_comma_free: "CHR '','' \<notin> set (str_nat n)"
proof (induction n rule: str_nat.induct)
  case (1 n)
  have d: "chr (ord CHR ''0'' + int m) \<noteq> CHR '',''" if "m < 10" for m
    using that by (intro chr_not_comma) (simp_all add: ord_consts)
  show ?case
  proof (cases "n < 10")
    case True
    then show ?thesis using d [of n] by (subst str_nat.simps) simp
  next
    case False
    have "n mod 10 < 10" by simp
    then show ?thesis using False 1 d [of "n mod 10"] by (subst str_nat.simps) simp
  qed
qed

lemma str_int_comma_free: "CHR '','' \<notin> set (str_int i)"
  by (simp add: str_int_def str_nat_comma_free)

lemma join_nil_singletons: "join [] (map (\<lambda>c. [c]) cs) = cs"
  by (induction cs rule: induct_list012) simp_all

lemma random_chars_comma_free: "CHR '','' \<notin> set (fst (random_chars n w))"
proof (induction n arbitrary: w)
  case 0
  then show ?case by simp
next
  case (Suc n)
  have "97 \<le> fst (randint 97 122 w) \<and> fst (randint 97 122 w) \<le> 122"
    by (rule randint_bounds) simp
  then have "chr (fst (randint 97 122 w)) \<noteq> CHR '',''"
    by (intro chr_not_comma) simp_all
  then show ?case using Suc by (simp add: case_prod_beta ord_consts)
qed

lemma random_str_comma_free: "CHR '','' \<notin> set (fst (random_str_call w))"
  by (simp add: random_str_call_def case_prod_beta join_nil_singletons random_chars_comma_free)

lemma call_comma_free: "CHR '','' \<notin> set (str (fst (call c w)))"
  by (cases c) (simp_all add: case_prod_beta str_int_comma_free random_str_comma_free)

lemma random_str_frame:
  "seq_N (snd (random_str_call w)) = seq_N w" "noise (snd (random_str_call w)) = noise w"
  "stdout (snd (random_str_call w)) = stdout w"
  by (simp_all add: random_str_call_def case_prod_beta random_chars_frame randint_frame)

lemma call_frame:
  "noise (snd (call c w)) = noise w" "stdout (snd (call c w)) = stdout w"
  "seq_N (snd (call c w)) = seq_N w + (if c = seq_int then 1 else 0)"
  by (cases c; simp add: case_prod_beta random_str_frame random_int_call_def seq_int_call_def randint_frame)+

lemma call_seq_int: "fst (call seq_int w) = PyInt (seq_N w + 1)"
  by (simp add: seq_int_call_def)

subsection \<open>Rows, the plan and the loop\<close>

lemma row_data_frame:
  "noise (snd (row_data lib plan x w)) = noise w \<and> stdout (snd (row_data lib plan x w)) = stdout w
   \<and> seq_N (snd (row_data lib plan x w)) = seq_N w + int (count_list plan (Some seq_int))
   \<and> length (fst (row_data lib plan x w)) = length plan"
proof (induction plan arbitrary: w)
  case Nil
  then show ?case by simp
next
  case (Cons p plan)
  show ?case
  proof (cases p)
    case None
    then show ?thesis using Cons [of w] by (simp add: case_prod_beta)
  next
    case (Some c)
    then show ?thesis using Cons [of "snd (call c w)"] by (simp add: case_prod_beta call_frame)
  qed
qed

lemma row_data_nth:
  "i < length plan \<Longrightarrow>
   fst (row_data lib plan x w) ! i =
     (case plan ! i of None \<Rightarrow> float_str lib x
      | Some c \<Rightarrow> str (fst (call c (snd (row_data lib (take i plan) x w)))))"
proof (induction plan arbitrary: w i)
  case Nil
  then show ?case by simp
next
  case (Cons p plan)
  show ?case
  proof (cases i)
    case 0
    then show ?thesis by (cases p) (simp_all add: case_prod_beta)
  next
    case (Suc m)
    then have m: "m < length plan" using Cons.prems by simp
    show ?thesis
    proof (cases p)
      case None
      then show ?thesis using Suc Cons.IH [OF m, of w]
        by (simp add: case_prod_beta cong: option.case_cong)
    next
      case (Some c)
      then show ?thesis using Suc Cons.IH [OF m, of "snd (call c w)"]
        by (simp add: case_prod_beta cong: option.case_cong)
    qed
  qed
qed

lemma row_data_seq_int:
  assumes "i < length plan" "plan ! i = Some seq_int"
  shows "fst (row_data lib plan x w) ! i
         = str_int (seq_N w + int (count_list (take i plan) (Some seq_int)) + 1)"
proof -
  have "fst (row_data lib plan x w) ! i
        = str (fst (call seq_int (snd (row_data lib (take i plan) x w))))"
    using assms by (simp add: row_data_nth)
  also have "\<dots> = str_int (seq_N (snd (row_data lib (take i plan) x w)) + 1)"
    by (simp only: call_seq_int str.simps)
  finally show ?thesis by (simp add: row_data_frame)
qed

lemma row_data_comma_free:
  assumes "CHR '','' \<notin> set (float_str lib x)"
  shows "\<forall>f \<in> set (fst (row_data lib plan x w)). CHR '','' \<notin> set f"
proof (induction plan arbitrary: w)
  case Nil
  then show ?case by simp
next
  case (Cons p plan)
  show ?case
  proof (cases p)
    case None
    then show ?thesis using Cons [of w] assms by (simp add: case_prod_beta)
  next
    case (Some c)
    then show ?thesis using Cons [of "snd (call c w)"]
      by (simp add: case_prod_beta call_comma_free)
  qed
qed

lemma other_ctors_of_frame:
  "seq_N (snd (other_ctors_of is k w)) = seq_N w \<and> noise (snd (other_ctors_of is k w)) = noise w
   \<and> stdout (snd (other_ctors_of is k w)) = stdout w
   \<and> length (fst (other_ctors_of is k w)) = length is"
  by (induction "is" k w rule: other_ctors_of.induct) (simp_all add: case_prod_beta choice_def)

lemma other_ctors_of_ints:
  "ints (snd (other_ctors_of is k w)) = sdrop (length (filter (\<lambda>j. j \<noteq> k) is)) (ints w)"
  by (induction "is" k w rule: other_ctors_of.induct) (simp_all add: case_prod_beta choice_def)

lemma other_ctors_of_nth:
  "i < length is \<Longrightarrow>
   fst (other_ctors_of is k w) ! i =
     (if is ! i \<noteq> k
      then Some (RANDOM_CTORS ! (ints w !! length (filter (\<lambda>j. j \<noteq> k) (take i is)) mod length RANDOM_CTORS))
      else None)"
proof (induction "is" arbitrary: i w)
  case Nil
  then show ?case by simp
next
  case (Cons j js)
  show ?case
  proof (cases i)
    case 0
    then show ?thesis by (simp add: case_prod_beta choice_def)
  next
    case (Suc m)
    then have m: "m < length js" using Cons.prems by simp
    show ?thesis
    proof (cases "j \<noteq> k")
      case True
      then show ?thesis using Suc Cons.IH [OF m, of "snd (choice RANDOM_CTORS w)"]
        by (simp add: case_prod_beta choice_def)
    next
      case False
      then show ?thesis using Suc Cons.IH [OF m, of w]
        by (simp add: case_prod_beta)
    qed
  qed
qed

lemma funpow_stdout:
  assumes "\<And>w. stdout (f w) = stdout w @ [g w]"
  shows "stdout ((f ^^ n) w) = stdout w @ map (\<lambda>j. g ((f ^^ j) w)) [0..<n]"
  by (induction n) (simp_all add: assms)

lemma rng_frame:
  "fst (rng lib a w) = gauss lib (mean a) (stdev a) (shd (noise w))"
  "noise (snd (rng lib a w)) = stl (noise w)" "stdout (snd (rng lib a w)) = stdout w"
  "seq_N (snd (rng lib a w)) = seq_N w" "ints (snd (rng lib a w)) = ints w"
  by (simp_all add: rng_def)

lemma body_csv:
  "stdout (sample_emit (rng lib a) (print_one_csv lib plan) w) = stdout w @ [join '','' (row_of lib a plan w)]"
  "noise (sample_emit (rng lib a) (print_one_csv lib plan) w) = stl (noise w)"
  "seq_N (sample_emit (rng lib a) (print_one_csv lib plan) w) = seq_N w + int (count_list plan (Some seq_int))"
  by (simp_all add: sample_emit_def print_one_csv_def print_def row_of_def case_prod_beta
      row_data_frame rng_frame)

lemma body_plain:
  "stdout (sample_emit (rng lib a) (print_one_plain lib) w)
     = stdout w @ [float_str lib (gauss lib (mean a) (stdev a) (shd (noise w)))]"
  "noise (sample_emit (rng lib a) (print_one_plain lib) w) = stl (noise w)"
  "seq_N (sample_emit (rng lib a) (print_one_plain lib) w) = seq_N w"
  "ints (sample_emit (rng lib a) (print_one_plain lib) w) = ints w"
  by (simp_all add: sample_emit_def print_one_plain_def print_def case_prod_beta rng_frame)

lemma funpow_csv_state:
  "noise ((sample_emit (rng lib a) (print_one_csv lib plan) ^^ n) w) = sdrop n (noise w) \<and>
   seq_N ((sample_emit (rng lib a) (print_one_csv lib plan) ^^ n) w)
     = seq_N w + int n * int (count_list plan (Some seq_int))"
  by (induction n) (simp_all add: body_csv algebra_simps)

lemma funpow_plain_state:
  "noise ((sample_emit (rng lib a) (print_one_plain lib) ^^ n) w) = sdrop n (noise w) \<and>
   seq_N ((sample_emit (rng lib a) (print_one_plain lib) ^^ n) w) = seq_N w \<and>
   ints ((sample_emit (rng lib a) (print_one_plain lib) ^^ n) w) = ints w"
  by (induction n) (simp_all add: body_plain)

lemma main_plain:
  assumes "distr a = ''gauss''" "csv_col a = None"
  shows "main_with lib a w =
    (Inr (), (sample_emit (rng lib a) (print_one_plain lib) ^^ nat (count a)) w)"
  using assms by (simp add: main_with_def for_range_funpow length_range_py)

lemma main_csv:
  assumes "distr a = ''gauss''" "csv_col a = Some k"
  shows "main_with lib a w =
    (Inr (), (sample_emit (rng lib a) (print_one_csv lib (fst (other_ctors a k w)))
               ^^ nat (count a)) (snd (other_ctors a k w)))"
  using assms
  by (simp add: main_with_def for_range_funpow length_range_py case_prod_beta)

lemma other_ctors_frame:
  "seq_N (snd (other_ctors a k w)) = seq_N w" "noise (snd (other_ctors a k w)) = noise w"
  "stdout (snd (other_ctors a k w)) = stdout w"
  "length (fst (other_ctors a k w)) = nat (csv_col_max a)"
  by (simp_all add: other_ctors_def other_ctors_of_frame length_range_py)

lemma stdout_plain:
  "stdout ((sample_emit (rng lib a) (print_one_plain lib) ^^ n) w) =
   stdout w @ map (\<lambda>j. float_str lib (gauss lib (mean a) (stdev a) (noise w !! j))) [0..<n]"
proof -
  have "stdout ((sample_emit (rng lib a) (print_one_plain lib) ^^ n) w) =
        stdout w @ map (\<lambda>j. float_str lib (gauss lib (mean a) (stdev a)
          (shd (noise ((sample_emit (rng lib a) (print_one_plain lib) ^^ j) w))))) [0..<n]"
    by (rule funpow_stdout) (rule body_plain)
  then show ?thesis by (simp add: funpow_plain_state)
qed

lemma stdout_csv:
  "stdout ((sample_emit (rng lib a) (print_one_csv lib plan) ^^ n) w) =
   stdout w @ map (\<lambda>j. join '','' (row_of lib a plan
       ((sample_emit (rng lib a) (print_one_csv lib plan) ^^ j) w))) [0..<n]"
  by (rule funpow_stdout) (rule body_csv)

lemma main_stdout:
  assumes "distr a = ''gauss''"
  shows "\<exists>ls. stdout (snd (main_with lib a w)) = stdout w @ ls \<and> length ls = nat (count a)"
proof (cases "csv_col a")
  case None
  then show ?thesis using assms by (simp add: main_plain stdout_plain)
next
  case (Some k)
  then show ?thesis using assms by (simp add: main_csv stdout_csv other_ctors_frame)
qed

lemma main_noise:
  assumes "distr a = ''gauss''"
  shows "noise (snd (main_with lib a w)) = sdrop (nat (count a)) (noise w)"
proof (cases "csv_col a")
  case None
  then show ?thesis using assms by (simp add: main_plain funpow_plain_state)
next
  case (Some k)
  then show ?thesis using assms by (simp add: main_csv funpow_csv_state other_ctors_frame)
qed

lemma row_of_length: "length (row_of lib a plan w) = length plan"
  by (simp add: row_of_def case_prod_beta row_data_frame)

lemma row_of_nth:
  "i < length plan \<Longrightarrow>
   row_of lib a plan w ! i =
     (case plan ! i of
        None \<Rightarrow> float_str lib (gauss lib (mean a) (stdev a) (shd (noise w)))
      | Some c \<Rightarrow> str (fst (call c (snd (row_data lib (take i plan)
                    (fst (rng lib a w)) (snd (rng lib a w)))))))"
  by (simp add: row_of_def case_prod_beta row_data_nth rng_frame cong: option.case_cong)

lemma row_data_comma_free':
  assumes "None \<in> set plan \<longrightarrow> CHR '','' \<notin> set (float_str lib x)"
  shows "\<forall>f \<in> set (fst (row_data lib plan x w)). CHR '','' \<notin> set f"
  using assms
proof (induction plan arbitrary: w)
  case Nil
  then show ?case by simp
next
  case (Cons p plan)
  show ?case
  proof (cases p)
    case None
    then show ?thesis using Cons.IH [of w] Cons.prems by (simp add: case_prod_beta)
  next
    case (Some c)
    then show ?thesis using Cons.IH [of "snd (call c w)"] Cons.prems
      by (simp add: case_prod_beta call_comma_free)
  qed
qed

lemma split_row_of:
  assumes "None \<in> set plan \<longrightarrow> (\<forall>v. CHR '','' \<notin> set (float_str lib v))" "plan \<noteq> []"
  shows "split_comma (join '','' (row_of lib a plan w)) = row_of lib a plan w"
proof (rule split_comma_join)
  show "row_of lib a plan w \<noteq> []"
    using assms(2) row_of_length [of lib a plan w] by (metis length_0_conv)
  show "\<forall>f \<in> set (row_of lib a plan w). CHR '','' \<notin> set f"
    unfolding row_of_def case_prod_beta Let_def
    by (rule row_data_comma_free') (use assms(1) in blast)
qed

lemma other_ctors_nth:
  assumes "i < nat (csv_col_max a)"
  shows "fst (other_ctors a k w) ! i =
     (if int i \<noteq> k
      then Some (RANDOM_CTORS ! (ints w !! length (filter (\<lambda>j. j \<noteq> k) (map int [0..<i]))
                   mod length RANDOM_CTORS))
      else None)"
proof -
  have "take i (map int [0..<nat (csv_col_max a)]) = map int [0..<i]"
    using assms by (simp add: take_map)
  then show ?thesis
    using assms by (simp add: other_ctors_def range_py_def other_ctors_of_nth)
qed

lemma emitted_csv:
  assumes "distr a = ''gauss''" "csv_col a = Some k"
  shows "emitted w (snd (main_with lib a w)) =
    map (\<lambda>j. join '','' (row_of lib a (fst (other_ctors a k w))
        ((sample_emit (rng lib a) (print_one_csv lib (fst (other_ctors a k w))) ^^ j)
           (snd (other_ctors a k w))))) [0..<nat (count a)]"
  using assms by (simp add: emitted_def main_csv stdout_csv other_ctors_frame)

lemma emitted_plain:
  assumes "distr a = ''gauss''" "csv_col a = None"
  shows "emitted w (snd (main_with lib a w)) =
    map (\<lambda>j. float_str lib (gauss lib (mean a) (stdev a) (noise w !! j))) [0..<nat (count a)]"
  using assms by (simp add: emitted_def main_plain stdout_plain)

lemma length_emitted:
  assumes "distr a = ''gauss''"
  shows "length (emitted w (snd (main_with lib a w))) = nat (count a)"
    and "stdout (snd (main_with lib a w)) = stdout w @ emitted w (snd (main_with lib a w))"
  using main_stdout [OF assms, of lib w] by (auto simp: emitted_def)

lemma main_ok: "distr a = ''gauss'' \<Longrightarrow> fst (main_with lib a w) = Inr ()"
  by (cases "csv_col a") (simp_all add: main_plain main_csv)

lemma emit_one:
  "\<exists>l. stdout (print_one_plain lib x v) = stdout v @ [l]"
  "\<exists>l. stdout (print_one_csv lib plan x v) = stdout v @ [l]"
  by (simp_all add: print_one_plain_def print_one_csv_def print_def case_prod_beta row_data_frame)

subsection \<open>Fields of a row, and the concrete run\<close>

lemma csv_line:
  assumes "distr a = ''gauss''" "csv_col a = Some k" "j < length (emitted w (snd (main_with lib a w)))"
  shows "emitted w (snd (main_with lib a w)) ! j =
     join '','' (row_of lib a (fst (other_ctors a k w))
        ((sample_emit (rng lib a) (print_one_csv lib (fst (other_ctors a k w))) ^^ j)
           (snd (other_ctors a k w))))"
  using assms(3) unfolding emitted_csv [OF assms(1,2)] by simp

lemma csv_noise:
  "shd (noise ((sample_emit (rng lib a) (print_one_csv lib plan) ^^ j) (snd (other_ctors a k w))))
   = noise w !! j"
  by (simp add: funpow_csv_state other_ctors_frame)

lemma RANDOM_CTORS_nth_mem: "RANDOM_CTORS ! (n mod length RANDOM_CTORS) \<in> set RANDOM_CTORS"
  by (rule nth_mem) (simp add: RANDOM_CTORS_def)

lemma other_ctors_None_iff:
  assumes "i < nat (csv_col_max a)"
  shows "fst (other_ctors a k w) ! i = None \<longleftrightarrow> int i = k"
  using assms by (simp add: other_ctors_nth)

lemma other_ctors_Some_mem:
  assumes "i < nat (csv_col_max a)" "fst (other_ctors a k w) ! i = Some c"
  shows "c \<in> set RANDOM_CTORS \<and> int i \<noteq> k"
  using assms RANDOM_CTORS_nth_mem by (auto simp: other_ctors_nth split: if_splits)

lemma row_of_Some:
  assumes "i < length plan" "plan ! i = Some c"
  shows "\<exists>v :: 'f world. row_of (lib :: 'f pylib) a plan w ! i = str (fst (call c v))"
  using assms by (auto simp: row_of_nth)

lemma row_of_None:
  assumes "i < length plan" "plan ! i = None"
  shows "row_of lib a plan w ! i = float_str lib (gauss lib (mean a) (stdev a) (shd (noise w)))"
  using assms by (simp add: row_of_nth)

lemma row_data_no_None:
  "None \<notin> set plan \<Longrightarrow> row_data lib plan x w = row_data lib' plan x' w"
proof (induction plan arbitrary: w)
  case Nil
  then show ?case by simp
next
  case (Cons p plan)
  then obtain c where p: "p = Some c" by (cases p) auto
  have "row_data lib plan x (snd (call c w)) = row_data lib' plan x' (snd (call c w))"
    using Cons by simp
  then show ?case by (simp add: p case_prod_beta)
qed

lemma body_no_None:
  assumes "None \<notin> set plan"
  shows "sample_emit (rng lib a) (print_one_csv lib plan)
       = sample_emit (rng lib' a') (print_one_csv lib' plan)"
proof
  fix w
  have "row_data lib plan (fst (rng lib a w)) (w\<lparr>noise := stl (noise w)\<rparr>)
      = row_data lib' plan (fst (rng lib' a' w)) (w\<lparr>noise := stl (noise w)\<rparr>)"
    by (rule row_data_no_None [OF assms])
  then show "sample_emit (rng lib a) (print_one_csv lib plan) w
       = sample_emit (rng lib' a') (print_one_csv lib' plan) w"
    by (simp add: sample_emit_def print_one_csv_def rng_def case_prod_beta)
qed

lemma other_ctors_no_None:
  assumes "k < 0 \<or> csv_col_max a \<le> k"
  shows "None \<notin> set (fst (other_ctors a k w))"
proof
  assume "None \<in> set (fst (other_ctors a k w))"
  then obtain i where i: "i < length (fst (other_ctors a k w))"
      and n: "fst (other_ctors a k w) ! i = None"
    by (auto simp: in_set_conv_nth)
  have "i < nat (csv_col_max a)" using i by (simp add: other_ctors_frame)
  moreover from this have "int i = k" using n by (simp add: other_ctors_nth split: if_splits)
  ultimately show False using assms by linarith
qed

lemma main_no_None:
  assumes "distr a = ''gauss''" "csv_col a = Some k" "k < 0 \<or> csv_col_max a \<le> k"
  shows "main_with lib' (a\<lparr>mean := m, stdev := s\<rparr>) w = main_with lib a w"
proof -
  let ?a' = "a\<lparr>mean := m, stdev := s\<rparr>"
  have oc: "other_ctors ?a' k w = other_ctors a k w" by (simp add: other_ctors_def)
  have nn: "None \<notin> set (fst (other_ctors a k w))" by (rule other_ctors_no_None [OF assms(3)])
  have "main_with lib' ?a' w =
    (Inr (), (sample_emit (rng lib' ?a') (print_one_csv lib' (fst (other_ctors ?a' k w)))
               ^^ nat (count ?a')) (snd (other_ctors ?a' k w)))"
    by (rule main_csv) (simp_all add: assms)
  also have "\<dots> = (Inr (), (sample_emit (rng lib a) (print_one_csv lib (fst (other_ctors a k w)))
               ^^ nat (count a)) (snd (other_ctors a k w)))"
    unfolding oc body_no_None [OF nn, of lib' ?a' lib a] by simp
  also have "\<dots> = main_with lib a w" by (rule main_csv [OF assms(1,2), symmetric])
  finally show ?thesis .
qed

lemmas run_simps = example_args_def example_world_def initial_world_def bit_lib_def
  other_ctors_def range_py_def choice_def RANDOM_CTORS_def rng_def random_int_call_def
  seq_int_call_def randint_def upt_conv_Cons sample_emit_def row_of_def print_one_csv_def
  print_def str_int_def str_nat.simps chr_def ord_def char_of_def

lemma example_plan:
  "fst (other_ctors example_args 1 example_world) = [Some random_int, None, Some seq_int]"
  by (simp add: run_simps)

lemma example_emitted:
  "emitted example_world (snd (main_with bit_lib example_args example_world))
   = [''-998,1.0,0'', ''-997,0.0,1'', ''-996,1.0,2'']"
proof -
  have d: "distr example_args = ''gauss''" "csv_col example_args = Some 1"
    by (simp_all add: example_args_def)
  show ?thesis unfolding emitted_csv [OF d] by (simp add: run_simps)
qed

lemma bit_lib_contract:
  "\<forall>v. CHR '','' \<notin> set (float_str bit_lib v)"
  "\<forall>v. float_of_str bit_lib (float_str bit_lib v) \<noteq> None"
  by (auto simp: bit_lib_def)

subsection \<open>The counter and the pool\<close>

lemma seq_int_calls_values:
  "fst (seq_int_calls n w) = map (\<lambda>i. seq_N w + 1 + int i) [0..<n]"
proof (induction n arbitrary: w)
  case 0
  then show ?case by simp
next
  case (Suc n)
  have "fst (seq_int_calls (Suc n) w)
      = (seq_N w + 1) # map (\<lambda>i. seq_N w + 1 + 1 + int i) [0..<n]"
    by (simp add: case_prod_beta seq_int_call_def Suc)
  also have "\<dots> = map (\<lambda>i. seq_N w + 1 + int i) [0..<Suc n]"
    unfolding map_upt_Suc by (simp add: algebra_simps)
  finally show ?case .
qed

lemma seq_int_calls_state: "seq_N (snd (seq_int_calls n w)) = seq_N w + int n"
  by (induction n arbitrary: w) (simp_all add: case_prod_beta seq_int_call_def)

lemma filter_neq_upt:
  "length (filter (\<lambda>j. j \<noteq> k) (map int [0..<i])) = (if 0 \<le> k \<and> k < int i then i - 1 else i)"
  by (induction i) auto

lemma counter_fields_simps:
  "counter_fields [] fs = []"
  "counter_fields (None # plan) (f # fs) = counter_fields plan fs"
  "counter_fields (Some seq_int # plan) (f # fs) = f # counter_fields plan fs"
  "c \<noteq> seq_int \<Longrightarrow> counter_fields (Some c # plan) (f # fs) = counter_fields plan fs"
  by (simp_all add: counter_fields_def)

lemma row_data_counter_fields:
  "counter_fields plan (fst (row_data lib plan x w))
   = map (\<lambda>p. str_int (seq_N w + 1 + int p)) [0..<count_list plan (Some seq_int)]"
proof (induction plan arbitrary: w)
  case Nil
  then show ?case by (simp add: counter_fields_simps)
next
  case (Cons e plan)
  show ?case
  proof (cases e)
    case None
    then show ?thesis using Cons [of w] by (simp add: case_prod_beta counter_fields_simps)
  next
    case (Some c)
    show ?thesis
    proof (cases "c = seq_int")
      case True
      have "counter_fields (e # plan) (fst (row_data lib (e # plan) x w))
          = str_int (seq_N w + 1)
            # map (\<lambda>p. str_int (seq_N w + 1 + 1 + int p)) [0..<count_list plan (Some seq_int)]"
        using Cons [of "snd (call seq_int w)"] Some True
        by (simp add: case_prod_beta counter_fields_simps seq_int_call_def)
      also have "\<dots> = map (\<lambda>p. str_int (seq_N w + 1 + int p))
                        [0..<Suc (count_list plan (Some seq_int))]"
        unfolding map_upt_Suc by (simp add: algebra_simps)
      finally show ?thesis using Some True by simp
    next
      case False
      then show ?thesis using Cons [of "snd (call c w)"] Some
        by (simp add: case_prod_beta counter_fields_simps call_frame)
    qed
  qed
qed

lemma row_of_counter_fields:
  "counter_fields plan (row_of lib a plan w)
   = map (\<lambda>p. str_int (seq_N w + 1 + int p)) [0..<count_list plan (Some seq_int)]"
  by (simp add: row_of_def case_prod_beta row_data_counter_fields rng_frame)

lemma csv_seq_N:
  "seq_N ((sample_emit (rng lib a) (print_one_csv lib plan) ^^ j) (snd (other_ctors a k w)))
   = seq_N w + int j * int (count_list plan (Some seq_int))"
  by (simp add: funpow_csv_state other_ctors_frame)

lemma split_line_counter_fields:
  assumes "\<forall>v. CHR '','' \<notin> set (float_str lib v)"
  shows "counter_fields plan (split_comma (join '','' (row_of lib a plan w)))
       = counter_fields plan (row_of lib a plan w)"
proof (cases "plan = []")
  case True
  then show ?thesis by (simp add: counter_fields_simps)
next
  case False
  then show ?thesis using assms by (simp add: split_row_of)
qed

lemma concat_segments:
  "concat (map (\<lambda>j. map (\<lambda>p. g (j * s + p)) [0..<s]) [0..<n]) = map g [0..<n * s]"
proof (induction n)
  case 0
  then show ?case by simp
next
  case (Suc n)
  have "map (\<lambda>p. g (n * s + p)) [0..<s] = map g (map (\<lambda>i. i + n * s) [0..<s])"
    by (simp add: comp_def add.commute)
  also have "\<dots> = map g [n * s..<s + n * s]"
    by (simp only: map_add_upt)
  finally have seg: "map (\<lambda>p. g (n * s + p)) [0..<s] = map g [n * s..<n * s + s]"
    by (simp only: add.commute [of s])
  have "[0..<Suc n * s] = [0..<n * s] @ [n * s..<n * s + s]"
    using upt_add_eq_append [of 0 "n * s" s] by (simp add: add.commute)
  then show ?case using Suc seg by simp
qed

subsection \<open>The parser\<close>

lemma parse_options_formed:
  "formed os \<Longrightarrow> parse_options lib os ns w = (Inr (foldl store ns os), w)"
proof (induction os arbitrary: ns)
  case Nil
  then show ?case by simp
next
  case (Cons opt os)
  then show ?case by (cases opt) (simp_all add: formed_def)
qed

lemma parse_options_Inr:
  "fst (parse_options lib os ns w) = Inr a \<Longrightarrow> formed os"
proof (induction os arbitrary: ns)
  case Nil
  then show ?case by (simp add: formed_def)
next
  case (Cons opt os)
  then show ?case by (cases opt) (auto simp: formed_def split: if_splits)
qed

lemma distr_foldl_store:
  "formed os \<Longrightarrow> distr ns = ''gauss'' \<Longrightarrow> distr (foldl store ns os) = ''gauss''"
proof (induction os arbitrary: ns)
  case Nil
  then show ?case by simp
next
  case (Cons opt os)
  then show ?case by (cases opt) (simp_all add: formed_def)
qed

lemma parse_args_formed:
  "formed argv \<Longrightarrow> parse_args lib argv w = (Inr (namespace lib argv), w)"
  by (simp add: parse_args_def namespace_def parse_options_formed)

lemma parse_args_Inr:
  assumes "fst (parse_args lib argv w) = Inr a"
  shows "formed argv" "a = namespace lib argv" "parse_args lib argv w = (Inr a, w)"
    "distr a = ''gauss''"
proof -
  show f: "formed argv" using assms unfolding parse_args_def by (rule parse_options_Inr)
  show a: "a = namespace lib argv" using assms parse_args_formed [OF f, of lib w] by simp
  show "parse_args lib argv w = (Inr a, w)" using parse_args_formed [OF f, of lib w] a by simp
  show "distr a = ''gauss''"
    unfolding a namespace_def by (rule distr_foldl_store [OF f]) (simp add: defaults_def)
qed

lemma main_formed:
  "fst (parse_args lib argv w) = Inr a \<Longrightarrow> main lib argv w = main_with lib a w"
  by (simp add: main_def parse_args_Inr(3))

lemma parse_args_argv_of:
  "distr a = ''gauss'' \<Longrightarrow> parse_args lib (argv_of a) w = (Inr a, w)"
  by (cases a; cases "csv_col a") (simp_all add: parse_args_def argv_of_def defaults_def)

lemma parse_options_stop:
  "\<exists>opt \<in> set os. bad_distr opt \<Longrightarrow>
   parse_options lib os ns w =
     (if Help \<in> set (takeWhile (\<lambda>opt. \<not> bad_distr opt) os)
      then (Inl (SystemExit 0), print_help lib w) else (Inl (SystemExit 2), w))"
proof (induction os arbitrary: ns)
  case Nil
  then show ?case by simp
next
  case (Cons opt os)
  then show ?case by (cases opt) auto
qed

lemma parse_options_help:
  "Help \<in> set os \<Longrightarrow> \<forall>opt \<in> set os. \<not> bad_distr opt \<Longrightarrow>
   parse_options lib os ns w = (Inl (SystemExit 0), print_help lib w)"
proof (induction os arbitrary: ns)
  case Nil
  then show ?case by simp
next
  case (Cons opt os)
  then show ?case by (cases opt) auto
qed

lemma foldl_store_fields:
  assumes "count ns = count ns'" "csv_col ns = csv_col ns'" "csv_col_max ns = csv_col_max ns'"
  shows "count (foldl store ns os) = count (foldl store ns' os)
    \<and> csv_col (foldl store ns os) = csv_col (foldl store ns' os)
    \<and> csv_col_max (foldl store ns os) = csv_col_max (foldl store ns' os)"
  using assms
proof (induction os arbitrary: ns ns')
  case Nil
  then show ?case by simp
next
  case (Cons opt os)
  show ?case
    unfolding foldl_Cons by (rule Cons.IH; cases opt) (simp_all add: Cons.prems)
qed

lemma namespace_fields:
  "count (namespace lib' argv) = count (namespace lib argv)
   \<and> csv_col (namespace lib' argv) = csv_col (namespace lib argv)
   \<and> csv_col_max (namespace lib' argv) = csv_col_max (namespace lib argv)"
  unfolding namespace_def by (rule foldl_store_fields) (simp_all add: defaults_def)

lemma formed_append_mean_stdev: "formed argv \<Longrightarrow> formed (argv @ [Mean m, Stdev s])"
  by (simp add: formed_def)

lemma namespace_append_mean_stdev:
  "namespace lib (argv @ [Mean m, Stdev s]) = (namespace lib argv)\<lparr>mean := m, stdev := s\<rparr>"
  by (simp add: namespace_def)

lemma example_parse:
  "parse_args bit_lib example_argv w = (Inr example_args, w)"
  by (simp add: parse_args_def example_argv_def example_args_def defaults_def bit_lib_def)

lemma example_main:
  "main bit_lib example_argv w = main_with bit_lib example_args w"
  by (simp add: main_def example_parse)

subsection \<open>Runs from a formed configuration\<close>

lemma emits_count_lines_formed:
  assumes "distr a = ''gauss''" "0 \<le> count a"
  shows "fst (main_with lib a w) = Inr ()
    \<and> stdout (snd (main_with lib a w)) = stdout w @ emitted w (snd (main_with lib a w))
    \<and> int (length (emitted w (snd (main_with lib a w)))) = count a
    \<and> noise (snd (main_with lib a w)) = sdrop (nat (count a)) (noise w)
    \<and> (\<exists>emit w0. snd (main_with lib a w) = (sample_emit (rng lib a) emit ^^ nat (count a)) w0
          \<and> stdout w0 = stdout w \<and> noise w0 = noise w
          \<and> (\<forall>x v. \<exists>l. stdout (emit x v) = stdout v @ [l]))
    \<and> (csv_col a = None \<longrightarrow> emitted w (snd (main_with lib a w)) =
          map (\<lambda>j. float_str lib (gauss lib (mean a) (stdev a) (noise w !! j)))
            [0..<nat (count a)])"
proof -
  have rep: "\<exists>emit w0. snd (main_with lib a w) = (sample_emit (rng lib a) emit ^^ nat (count a)) w0
          \<and> stdout w0 = stdout w \<and> noise w0 = noise w
          \<and> (\<forall>x v. \<exists>l. stdout (emit x v) = stdout v @ [l])"
  proof (cases "csv_col a")
    case None
    show ?thesis
      by (rule exI [of _ "print_one_plain lib"], rule exI [of _ w])
         (simp add: main_plain [OF assms(1) None] emit_one)
  next
    case (Some k)
    show ?thesis
      by (rule exI [of _ "print_one_csv lib (fst (other_ctors a k w))"],
          rule exI [of _ "snd (other_ctors a k w)"])
         (simp add: main_csv [OF assms(1) Some] emit_one other_ctors_frame)
  qed
  show ?thesis
    using assms rep
    by (simp add: main_ok length_emitted [OF assms(1)] main_noise emitted_plain)
qed

lemma csv_line_fields_formed:
  assumes lib: "\<forall>v. CHR '','' \<notin> set (float_str lib v)"
      "\<forall>v. float_of_str lib (float_str lib v) \<noteq> None"
    and cfg: "distr a = ''gauss''" "csv_col a = Some k" "0 \<le> k" "k < csv_col_max a"
    and j: "j < length (emitted w (snd (main_with lib a w)))"
  shows "int (length (split_comma (emitted w (snd (main_with lib a w)) ! j))) = csv_col_max a
    \<and> split_comma (emitted w (snd (main_with lib a w)) ! j) ! nat k
        = float_str lib (gauss lib (mean a) (stdev a) (noise w !! j))
    \<and> float_of_str lib (split_comma (emitted w (snd (main_with lib a w)) ! j) ! nat k) \<noteq> None"
proof -
  let ?plan = "fst (other_ctors a k w)"
  let ?wj = "(sample_emit (rng lib a) (print_one_csv lib ?plan) ^^ j) (snd (other_ctors a k w))"
  have len: "length ?plan = nat (csv_col_max a)" by (simp add: other_ctors_frame)
  have k: "nat k < length ?plan" using cfg(3,4) len by simp
  then have ne: "?plan \<noteq> []" by auto
  have "?plan ! nat k = None"
    using k cfg(3) len by (simp add: other_ctors_nth)
  then have field: "row_of lib a ?plan ?wj ! nat k
      = float_str lib (gauss lib (mean a) (stdev a) (noise w !! j))"
    using k by (simp add: row_of_nth csv_noise)
  have "split_comma (emitted w (snd (main_with lib a w)) ! j) = row_of lib a ?plan ?wj"
    unfolding csv_line [OF cfg(1,2) j] using lib(1) ne by (intro split_row_of) simp_all
  then show ?thesis using field lib(2) len cfg(3,4) by (simp add: row_of_length)
qed

lemma csv_col_out_of_range_formed:
  fixes lib :: "'f pylib" and w :: "'f world"
  assumes "distr a = ''gauss''" "csv_col a = Some k" "k < 0 \<or> csv_col_max a \<le> k"
  shows "fst (main_with lib a w) = Inr ()
    \<and> length (emitted w (snd (main_with lib a w))) = nat (count a)
    \<and> length (fst (other_ctors a k w)) = nat (csv_col_max a)
    \<and> None \<notin> set (fst (other_ctors a k w))
    \<and> (\<forall>lib' m s. main_with lib' (a\<lparr>mean := m, stdev := s\<rparr>) w = main_with lib a w)
    \<and> (\<forall>j < nat (count a). \<exists>data.
          emitted w (snd (main_with lib a w)) ! j = join '','' data
          \<and> length data = nat (csv_col_max a)
          \<and> (0 < csv_col_max a \<longrightarrow> split_comma (emitted w (snd (main_with lib a w)) ! j) = data)
          \<and> (\<forall>i < nat (csv_col_max a). \<exists>c. \<exists>v :: 'f world.
                fst (other_ctors a k w) ! i = Some c \<and> c \<in> set RANDOM_CTORS
                \<and> data ! i = str (fst (call c v))))"
proof -
  let ?plan = "fst (other_ctors a k w)"
  have len: "length ?plan = nat (csv_col_max a)" by (simp add: other_ctors_frame)
  have nn: "None \<notin> set ?plan" by (rule other_ctors_no_None [OF assms(3)])
  have le: "length (emitted w (snd (main_with lib a w))) = nat (count a)"
    by (rule length_emitted [OF assms(1)])
  have rows: "\<exists>data. emitted w (snd (main_with lib a w)) ! j = join '','' data
          \<and> length data = nat (csv_col_max a)
          \<and> (0 < csv_col_max a \<longrightarrow> split_comma (emitted w (snd (main_with lib a w)) ! j) = data)
          \<and> (\<forall>i < nat (csv_col_max a). \<exists>c. \<exists>v :: 'f world.
                ?plan ! i = Some c \<and> c \<in> set RANDOM_CTORS \<and> data ! i = str (fst (call c v)))"
    if j: "j < nat (count a)" for j
  proof -
    let ?wj = "(sample_emit (rng lib a) (print_one_csv lib ?plan) ^^ j) (snd (other_ctors a k w))"
    have line: "emitted w (snd (main_with lib a w)) ! j = join '','' (row_of lib a ?plan ?wj)"
      using j le by (intro csv_line [OF assms(1,2)]) simp
    have "\<exists>c. \<exists>v :: 'f world. ?plan ! i = Some c \<and> c \<in> set RANDOM_CTORS
            \<and> row_of lib a ?plan ?wj ! i = str (fst (call c v))"
      if i: "i < nat (csv_col_max a)" for i
    proof -
      have "?plan ! i \<in> set ?plan" using i len by simp
      then have "?plan ! i \<noteq> None" using nn by metis
      then obtain c where c: "?plan ! i = Some c" by blast
      have "c \<in> set RANDOM_CTORS" using other_ctors_Some_mem [OF i c] by simp
      moreover obtain v :: "'f world" where "row_of lib a ?plan ?wj ! i = str (fst (call c v))"
        using row_of_Some [of i ?plan c lib a ?wj] i len c by auto
      ultimately show ?thesis using c by blast
    qed
    moreover have "split_comma (emitted w (snd (main_with lib a w)) ! j) = row_of lib a ?plan ?wj"
      if "0 < csv_col_max a"
    proof -
      have "?plan \<noteq> []" using that len by auto
      then show ?thesis unfolding line using nn by (intro split_row_of) simp_all
    qed
    ultimately show ?thesis
      using line len by (intro exI [of _ "row_of lib a ?plan ?wj"]) (simp add: row_of_length)
  qed
  have indep: "\<forall>lib' m s. main_with lib' (a\<lparr>mean := m, stdev := s\<rparr>) w = main_with lib a w"
    using main_no_None [OF assms] by blast
  show ?thesis
    using main_ok [OF assms(1), of lib w] le len nn indep rows by blast
qed

lemma shared_counter_fields_formed:
  fixes lib :: "'f pylib" and w :: "'f world"
  assumes lib: "\<forall>v. CHR '','' \<notin> set (float_str lib v)"
    and cfg: "distr a = ''gauss''" "csv_col a = Some k"
    and j: "j < length (emitted w (snd (main_with lib a w)))"
  shows "counter_fields (fst (other_ctors a k w)) (split_comma (emitted w (snd (main_with lib a w)) ! j))
       = map (\<lambda>p. str_int (seq_N w + 1
                + int (j * count_list (fst (other_ctors a k w)) (Some seq_int) + p)))
           [0..<count_list (fst (other_ctors a k w)) (Some seq_int)]
    \<and> concat (map (\<lambda>l. counter_fields (fst (other_ctors a k w)) (split_comma l))
          (emitted w (snd (main_with lib a w))))
       = map (\<lambda>m. str_int (seq_N w + 1 + int m))
           [0..<nat (count a) * count_list (fst (other_ctors a k w)) (Some seq_int)]
    \<and> seq_N (snd (main_with lib a w))
       = seq_N w + int (nat (count a) * count_list (fst (other_ctors a k w)) (Some seq_int))"
proof -
  let ?plan = "fst (other_ctors a k w)"
  let ?s = "count_list ?plan (Some seq_int)"
  let ?B = "sample_emit (rng lib a) (print_one_csv lib ?plan)"
  let ?line = "\<lambda>j. join '','' (row_of lib a ?plan ((?B ^^ j) (snd (other_ctors a k w))))"
  let ?g = "\<lambda>m. str_int (seq_N w + 1 + int m)"
  have row: "counter_fields ?plan (split_comma (?line i))
      = map (\<lambda>p. ?g (i * ?s + p)) [0..<?s]" for i
    unfolding split_line_counter_fields [OF lib] row_of_counter_fields csv_seq_N
    by (simp add: algebra_simps)
  have em: "emitted w (snd (main_with lib a w)) = map ?line [0..<nat (count a)]"
    by (rule emitted_csv [OF cfg])
  have one: "counter_fields ?plan (split_comma (emitted w (snd (main_with lib a w)) ! j))
      = map (\<lambda>p. ?g (j * ?s + p)) [0..<?s]"
    using j row [of j] unfolding em by simp
  have "concat (map (\<lambda>l. counter_fields ?plan (split_comma l)) (emitted w (snd (main_with lib a w))))
      = concat (map (\<lambda>i. map (\<lambda>p. ?g (i * ?s + p)) [0..<?s]) [0..<nat (count a)])"
    unfolding em map_map comp_def row ..
  also have "\<dots> = map ?g [0..<nat (count a) * ?s]"
    by (rule concat_segments)
  finally have all: "concat (map (\<lambda>l. counter_fields ?plan (split_comma l))
        (emitted w (snd (main_with lib a w)))) = map ?g [0..<nat (count a) * ?s]" .
  have fin: "seq_N (snd (main_with lib a w)) = seq_N w + int (nat (count a) * ?s)"
    unfolding main_csv [OF cfg] snd_conv csv_seq_N by simp
  show ?thesis using one all fin by blast
qed

lemma call_random_int:
  "\<exists>v. - 1000 \<le> v \<and> v \<le> 1000 \<and> fst (call random_int w) = PyInt v"
proof -
  have "- 1000 \<le> fst (randint (- 1000) 1000 w) \<and> fst (randint (- 1000) 1000 w) \<le> 1000"
    by (rule randint_bounds) simp
  then show ?thesis by (simp add: random_int_call_def case_prod_beta)
qed

lemma random_chars_lower:
  "\<forall>ch \<in> set (fst (random_chars n w)). ord CHR ''a'' \<le> ord ch \<and> ord ch \<le> ord CHR ''z''"
proof (induction n arbitrary: w)
  case 0
  then show ?case by simp
next
  case (Suc n)
  have b: "97 \<le> fst (randint 97 122 w) \<and> fst (randint 97 122 w) \<le> 122"
    by (rule randint_bounds) simp
  then have "ord (chr (fst (randint 97 122 w))) = fst (randint 97 122 w)"
    by (intro ord_chr) simp_all
  then show ?case using Suc b by (simp add: case_prod_beta ord_consts)
qed

lemma call_random_str:
  "\<exists>s. fst (call random_str w) = PyStr s \<and> 1 \<le> length s \<and> length s \<le> 8
     \<and> (\<forall>ch \<in> set s. ord CHR ''a'' \<le> ord ch \<and> ord ch \<le> ord CHR ''z'')"
proof -
  have b: "1 \<le> fst (randint 1 8 w) \<and> fst (randint 1 8 w) \<le> 8"
    by (rule randint_bounds) simp
  let ?cs = "fst (random_chars (length (range_py (fst (randint 1 8 w)))) (snd (randint 1 8 w)))"
  have s: "fst (random_str_call w) = ?cs"
    by (simp add: random_str_call_def case_prod_beta join_nil_singletons)
  have "length ?cs = nat (fst (randint 1 8 w))"
    by (simp add: random_chars_frame length_range_py)
  then have "1 \<le> length ?cs \<and> length ?cs \<le> 8" using b by linarith
  then show ?thesis using s random_chars_lower [of "length (range_py (fst (randint 1 8 w)))" "snd (randint 1 8 w)"]
    by (simp add: case_prod_beta)
qed

lemma row_of_cell:
  assumes "i < length plan" "plan ! i = Some c"
  shows "row_of lib a plan ((sample_emit (rng lib a) (print_one_csv lib plan) ^^ j) w1) ! i
       = str (fst (call c (cell_world lib a plan w1 j i)))"
  using assms by (simp add: row_of_nth cell_world_def Let_def case_prod_beta)

lemma row_of_seq_int:
  assumes "i < length plan" "plan ! i = Some seq_int"
  shows "row_of lib a plan w ! i
       = str_int (seq_N w + 1 + int (count_list (take i plan) (Some seq_int)))"
  using row_data_seq_int [OF assms, of lib "fst (rng lib a w)" "snd (rng lib a w)"]
  by (simp add: row_of_def case_prod_beta rng_frame algebra_simps)

lemma filler_plan_fixed_formed:
  fixes lib :: "'f pylib" and w :: "'f world"
  assumes lib: "\<forall>v. CHR '','' \<notin> set (float_str lib v)"
    and cfg: "distr a = ''gauss''" "csv_col a = Some k"
    and j: "j < length (emitted w (snd (main_with lib a w)))"
    and i: "i < length (fst (other_ctors a k w))"
  shows "stdout (snd (other_ctors a k w)) = stdout w
    \<and> snd (main_with lib a w) =
        (sample_emit (rng lib a) (print_one_csv lib (fst (other_ctors a k w))) ^^ nat (count a))
          (snd (other_ctors a k w))
    \<and> length (split_comma (emitted w (snd (main_with lib a w)) ! j))
        = length (fst (other_ctors a k w))
    \<and> (case fst (other_ctors a k w) ! i of
          None \<Rightarrow> int i = k
            \<and> split_comma (emitted w (snd (main_with lib a w)) ! j) ! i
                = float_str lib (gauss lib (mean a) (stdev a) (noise w !! j))
        | Some c \<Rightarrow> int i \<noteq> k \<and> c \<in> set RANDOM_CTORS
            \<and> split_comma (emitted w (snd (main_with lib a w)) ! j) ! i
                = str (fst (call c
                    (cell_world lib a (fst (other_ctors a k w)) (snd (other_ctors a k w)) j i)))
            \<and> (case c of
                  random_int \<Rightarrow>
                    (\<exists>v. - 1000 \<le> v \<and> v \<le> 1000
                       \<and> split_comma (emitted w (snd (main_with lib a w)) ! j) ! i = str_int v)
                | seq_int \<Rightarrow>
                    split_comma (emitted w (snd (main_with lib a w)) ! j) ! i
                      = str_int (seq_N w + 1
                          + int (j * count_list (fst (other_ctors a k w)) (Some seq_int)
                                 + count_list (take i (fst (other_ctors a k w))) (Some seq_int)))
                | random_str \<Rightarrow>
                    1 \<le> length (split_comma (emitted w (snd (main_with lib a w)) ! j) ! i)
                    \<and> length (split_comma (emitted w (snd (main_with lib a w)) ! j) ! i) \<le> 8
                    \<and> (\<forall>ch \<in> set (split_comma (emitted w (snd (main_with lib a w)) ! j) ! i).
                          ord CHR ''a'' \<le> ord ch \<and> ord ch \<le> ord CHR ''z'')))"
proof -
  let ?plan = "fst (other_ctors a k w)"
  let ?w1 = "snd (other_ctors a k w)"
  let ?wj = "(sample_emit (rng lib a) (print_one_csv lib ?plan) ^^ j) ?w1"
  let ?f = "row_of lib a ?plan ?wj ! i"
  have len: "length ?plan = nat (csv_col_max a)" by (simp add: other_ctors_frame)
  have ne: "?plan \<noteq> []" using i by auto
  have split: "split_comma (emitted w (snd (main_with lib a w)) ! j) = row_of lib a ?plan ?wj"
    unfolding csv_line [OF cfg j] using lib ne by (intro split_row_of) simp_all
  have col: "case ?plan ! i of
          None \<Rightarrow> int i = k
            \<and> ?f = float_str lib (gauss lib (mean a) (stdev a) (noise w !! j))
        | Some c \<Rightarrow> int i \<noteq> k \<and> c \<in> set RANDOM_CTORS
            \<and> ?f = str (fst (call c (cell_world lib a ?plan ?w1 j i)))
            \<and> (case c of
                  random_int \<Rightarrow> (\<exists>v. - 1000 \<le> v \<and> v \<le> 1000 \<and> ?f = str_int v)
                | seq_int \<Rightarrow>
                    ?f = str_int (seq_N w + 1
                          + int (j * count_list ?plan (Some seq_int)
                                 + count_list (take i ?plan) (Some seq_int)))
                | random_str \<Rightarrow> 1 \<le> length ?f \<and> length ?f \<le> 8
                    \<and> (\<forall>ch \<in> set ?f. ord CHR ''a'' \<le> ord ch \<and> ord ch \<le> ord CHR ''z''))"
  proof (cases "?plan ! i")
    case None
    then show ?thesis
      using i len other_ctors_None_iff [of i a k w] row_of_None [OF i None, of lib a ?wj]
      by (simp add: csv_noise)
  next
    case (Some c)
    have mem: "c \<in> set RANDOM_CTORS \<and> int i \<noteq> k"
      using i len other_ctors_Some_mem [of i a k w c] Some by simp
    have cell: "?f = str (fst (call c (cell_world lib a ?plan ?w1 j i)))"
      by (rule row_of_cell [OF i Some])
    have kind: "case c of
                  random_int \<Rightarrow> (\<exists>v. - 1000 \<le> v \<and> v \<le> 1000 \<and> ?f = str_int v)
                | seq_int \<Rightarrow>
                    ?f = str_int (seq_N w + 1
                          + int (j * count_list ?plan (Some seq_int)
                                 + count_list (take i ?plan) (Some seq_int)))
                | random_str \<Rightarrow> 1 \<le> length ?f \<and> length ?f \<le> 8
                    \<and> (\<forall>ch \<in> set ?f. ord CHR ''a'' \<le> ord ch \<and> ord ch \<le> ord CHR ''z'')"
    proof (cases c)
      case random_int
      obtain v where "- 1000 \<le> v" "v \<le> 1000"
          "fst (call random_int (cell_world lib a ?plan ?w1 j i)) = PyInt v"
        using call_random_int by blast
      then show ?thesis using cell random_int by auto
    next
      case seq_int
      have "?f = str_int (seq_N ?wj + 1 + int (count_list (take i ?plan) (Some seq_int)))"
        using Some seq_int by (intro row_of_seq_int [OF i]) simp
      then show ?thesis using seq_int by (simp add: csv_seq_N algebra_simps)
    next
      case random_str
      obtain s where "fst (call random_str (cell_world lib a ?plan ?w1 j i)) = PyStr s"
          "1 \<le> length s" "length s \<le> 8"
          "\<forall>ch \<in> set s. ord CHR ''a'' \<le> ord ch \<and> ord ch \<le> ord CHR ''z''"
        using call_random_str by blast
      then show ?thesis using cell random_str by auto
    qed
    show ?thesis using Some mem cell kind by simp
  qed
  have run: "snd (main_with lib a w) =
        (sample_emit (rng lib a) (print_one_csv lib ?plan) ^^ nat (count a)) ?w1"
    by (simp add: main_csv [OF cfg])
  have "length (split_comma (emitted w (snd (main_with lib a w)) ! j)) = length ?plan"
    unfolding split by (rule row_of_length)
  moreover have "stdout ?w1 = stdout w"
    by (rule other_ctors_frame)
  ultimately show ?thesis
    using col run unfolding split by blast
qed


lemma main_with_indep:
  assumes "distr a = ''gauss''" "distr a' = ''gauss''" "csv_col a = Some k"
    "k < 0 \<or> csv_col_max a \<le> k"
    "count a' = count a" "csv_col a' = csv_col a" "csv_col_max a' = csv_col_max a"
  shows "main_with lib' a' w = main_with lib a w"
proof -
  have oc: "other_ctors a' k w = other_ctors a k w" by (simp add: other_ctors_def assms(7))
  have nn: "None \<notin> set (fst (other_ctors a k w))" by (rule other_ctors_no_None [OF assms(4)])
  have "main_with lib' a' w =
    (Inr (), (sample_emit (rng lib' a') (print_one_csv lib' (fst (other_ctors a' k w)))
               ^^ nat (count a')) (snd (other_ctors a' k w)))"
    by (rule main_csv) (simp_all add: assms)
  also have "\<dots> = (Inr (), (sample_emit (rng lib a) (print_one_csv lib (fst (other_ctors a k w)))
               ^^ nat (count a)) (snd (other_ctors a k w)))"
    unfolding oc body_no_None [OF nn, of lib' a' lib a] by (simp add: assms(5))
  also have "\<dots> = main_with lib a w" by (rule main_csv [OF assms(1,3), symmetric])
  finally show ?thesis .
qed

section \<open>The claims\<close>

text \<open>
  A configuration is formed when \<^verbatim>\<open>parse_args\<close> returns: the command line has no help
  option and every \<^verbatim>\<open>--distr\<close> value is \<^verbatim>\<open>"gauss"\<close> (\<open>parse_args_Inr\<close>,
  \<open>parse_args_formed\<close>). Every namespace whose distribution is \<^verbatim>\<open>"gauss"\<close> is formed by
  some command line (\<open>parse_args_argv_of\<close>). The claims about a run are stated for every
  command line \<open>argv\<close> and the configuration \<open>a\<close> it forms.
\<close>

subsection \<open>The number of lines\<close>

text \<open>
  Claim C1. For every command line that forms a configuration with \<open>count = N \<ge> 0\<close>
  (its distribution is then the supported one), the program returns normally and emits
  exactly \<open>N\<close> lines, appended to standard output. The final world is the \<open>N\<close>-fold
  iteration of one step, draw a sample and then emit it, where emitting writes exactly one
  line; \<open>N\<close> samples are consumed. In plain mode line \<open>j\<close> is the string of sample \<open>j\<close>.
\<close>

theorem main_emits_count_lines:
  assumes p: "fst (parse_args lib argv w) = Inr a" and c: "0 \<le> count a"
  shows "fst (main lib argv w) = Inr ()
    \<and> stdout (snd (main lib argv w)) = stdout w @ emitted w (snd (main lib argv w))
    \<and> int (length (emitted w (snd (main lib argv w)))) = count a
    \<and> noise (snd (main lib argv w)) = sdrop (nat (count a)) (noise w)
    \<and> (\<exists>emit w0. snd (main lib argv w) = (sample_emit (rng lib a) emit ^^ nat (count a)) w0
          \<and> stdout w0 = stdout w \<and> noise w0 = noise w
          \<and> (\<forall>x v. \<exists>l. stdout (emit x v) = stdout v @ [l]))
    \<and> (csv_col a = None \<longrightarrow> emitted w (snd (main lib argv w)) =
          map (\<lambda>j. float_str lib (gauss lib (mean a) (stdev a) (noise w !! j)))
            [0..<nat (count a)])"
  unfolding main_formed [OF p]
  by (rule emits_count_lines_formed [OF parse_args_Inr(4) [OF p] c])

theorem main_emits_count_lines_witness:
  "fst (main bit_lib [Count 3] example_world) = Inr ()
   \<and> stdout (snd (main bit_lib [Count 3] example_world)) = [''1.0'', ''0.0'', ''1.0'']
   \<and> length (emitted example_world (snd (main bit_lib [Count 3] example_world))) = 3"
proof -
  let ?a = "example_args\<lparr>csv_col := None, csv_col_max := 8\<rparr>"
  have p: "fst (parse_args bit_lib [Count 3] example_world) = Inr ?a"
    by (simp add: parse_args_def defaults_def bit_lib_def example_args_def)
  have c: "0 \<le> count ?a" by (simp add: example_args_def)
  have n: "csv_col ?a = None" by simp
  have s: "stdout example_world = []" by (simp add: example_world_def initial_world_def)
  have v: "map (\<lambda>j. float_str bit_lib (gauss bit_lib (mean ?a) (stdev ?a) (noise example_world !! j)))
            [0..<nat (count ?a)] = [''1.0'', ''0.0'', ''1.0'']"
    by (simp add: example_args_def example_world_def initial_world_def bit_lib_def
        eval_nat_numeral)
  note t = main_emits_count_lines [OF p c]
  have "fst (main bit_lib [Count 3] example_world) = Inr ()"
    using t by blast
  moreover have e: "emitted example_world (snd (main bit_lib [Count 3] example_world))
      = [''1.0'', ''0.0'', ''1.0'']"
    using t n unfolding v by blast
  moreover have "stdout (snd (main bit_lib [Count 3] example_world))
      = stdout example_world @ emitted example_world (snd (main bit_lib [Count 3] example_world))"
    using t by blast
  ultimately show ?thesis unfolding e s by simp
qed

subsection \<open>The fields of a CSV line\<close>

text \<open>
  Claim C2. In CSV mode with \<^verbatim>\<open>csv-col = k\<close> and \<^verbatim>\<open>csv-col-max = M\<close>, under
  \<open>0 \<le> k < M\<close>, every emitted line splits at its commas into exactly \<open>M\<close> fields, and
  field \<open>k\<close> is the string of the value sampled for that line, which parses as a float.
  What is assumed of Python's floats is stated: the string of a float holds no comma,
  and \<^verbatim>\<open>float\<close> accepts it. That no filler field holds a comma is proved
  (\<open>call_comma_free\<close>), not assumed.
\<close>

theorem csv_line_fields:
  assumes lib: "\<forall>v. CHR '','' \<notin> set (float_str lib v)"
      "\<forall>v. float_of_str lib (float_str lib v) \<noteq> None"
    and p: "fst (parse_args lib argv w) = Inr a"
    and cfg: "csv_col a = Some k" "0 \<le> k" "k < csv_col_max a"
    and j: "j < length (emitted w (snd (main lib argv w)))"
  shows "int (length (split_comma (emitted w (snd (main lib argv w)) ! j))) = csv_col_max a
    \<and> split_comma (emitted w (snd (main lib argv w)) ! j) ! nat k
        = float_str lib (gauss lib (mean a) (stdev a) (noise w !! j))
    \<and> float_of_str lib (split_comma (emitted w (snd (main lib argv w)) ! j) ! nat k) \<noteq> None"
  using j unfolding main_formed [OF p]
  by (rule csv_line_fields_formed [OF lib parse_args_Inr(4) [OF p] cfg])

theorem csv_line_fields_witness:
  "emitted example_world (snd (main bit_lib example_argv example_world))
     = [''-998,1.0,0'', ''-997,0.0,1'', ''-996,1.0,2'']
   \<and> int (length (split_comma
         (emitted example_world (snd (main bit_lib example_argv example_world)) ! 1))) = 3
   \<and> split_comma (emitted example_world (snd (main bit_lib example_argv example_world)) ! 1) ! 1
       = ''0.0''
   \<and> float_of_str bit_lib (split_comma
         (emitted example_world (snd (main bit_lib example_argv example_world)) ! 1) ! 1)
       = Some False"
proof -
  have p: "fst (parse_args bit_lib example_argv example_world) = Inr example_args"
    by (simp add: example_parse)
  have cfg: "csv_col example_args = Some 1" "(0::int) \<le> 1" "1 < csv_col_max example_args"
    by (simp_all add: example_args_def)
  have e: "emitted example_world (snd (main bit_lib example_argv example_world))
     = [''-998,1.0,0'', ''-997,0.0,1'', ''-996,1.0,2'']"
    unfolding example_main by (rule example_emitted)
  have j: "1 < length (emitted example_world (snd (main bit_lib example_argv example_world)))"
    unfolding e by simp
  have x: "float_str bit_lib (gauss bit_lib (mean example_args) (stdev example_args)
             (noise example_world !! 1)) = ''0.0''"
    by (simp add: example_args_def example_world_def initial_world_def bit_lib_def)
  have m: "csv_col_max example_args = 3" by (simp add: example_args_def)
  from csv_line_fields [OF bit_lib_contract p cfg j]
  show ?thesis unfolding x m e by simp (simp add: bit_lib_def)
qed

subsection \<open>Unsupported distribution\<close>

text \<open>
  Claim C3, as stated, has a non-zero exit status for every \<^verbatim>\<open>--distr\<close> value other
  than \<^verbatim>\<open>"gauss"\<close>. With \<^verbatim>\<open>-h --distr uniform\<close> the parser meets the help option
  first: it prints the help message and the process exits with status 0.
\<close>

theorem main_rejects_other_distr_counterexample:
  "main bit_lib [Help, Distr ''uniform''] example_world
     = (Inl (SystemExit 0), print_help bit_lib example_world)
   \<and> exit_status (fst (main bit_lib [Help, Distr ''uniform''] example_world)) = 0"
  by (simp add: main_def parse_args_def)

text \<open>
  Claim C3, amended. For every command line with a \<^verbatim>\<open>--distr\<close> value other than
  \<^verbatim>\<open>"gauss"\<close>, no configuration is formed, nothing is generated and no data line is
  emitted: the parser stops at the first such value, during validation, and the process
  exits with status 2 and standard output untouched; unless a help option comes before
  that value, in which case the parser prints its help message and the process exits with
  status 0. In both cases the counter and the random generator are as they were.
\<close>

theorem main_rejects_other_distr:
  assumes "Distr s \<in> set argv" "s \<noteq> ''gauss''"
  shows "main lib argv w =
      (if Help \<in> set (takeWhile (\<lambda>opt. \<not> bad_distr opt) argv)
       then (Inl (SystemExit 0), print_help lib w) else (Inl (SystemExit 2), w))
    \<and> exit_status (fst (main lib argv w)) =
        (if Help \<in> set (takeWhile (\<lambda>opt. \<not> bad_distr opt) argv) then 0 else 2)
    \<and> (Help \<notin> set argv \<longrightarrow>
          exit_status (fst (main lib argv w)) \<noteq> 0 \<and> snd (main lib argv w) = w)
    \<and> seq_N (snd (main lib argv w)) = seq_N w
    \<and> ints (snd (main lib argv w)) = ints w
    \<and> noise (snd (main lib argv w)) = noise w
    \<and> (stdout (snd (main lib argv w)) = stdout w
         \<or> stdout (snd (main lib argv w)) = stdout w @ format_help lib)"
proof -
  have bad: "\<exists>opt \<in> set argv. bad_distr opt"
    using assms by (intro bexI [of _ "Distr s"]) simp_all
  have m: "main lib argv w =
      (if Help \<in> set (takeWhile (\<lambda>opt. \<not> bad_distr opt) argv)
       then (Inl (SystemExit 0), print_help lib w) else (Inl (SystemExit 2), w))"
    unfolding main_def parse_args_def parse_options_stop [OF bad] by simp
  have "Help \<notin> set (takeWhile (\<lambda>opt. \<not> bad_distr opt) argv)" if "Help \<notin> set argv"
    using that set_takeWhileD by fastforce
  then show ?thesis unfolding m by (simp add: print_help_def)
qed

theorem main_rejects_other_distr_witness:
  "main bit_lib [Distr ''uniform'', Help] example_world = (Inl (SystemExit 2), example_world)
   \<and> main bit_lib [Count 3, Distr ''uniform''] example_world = (Inl (SystemExit 2), example_world)
   \<and> exit_status (fst (main bit_lib [Count 3, Distr ''uniform''] example_world)) = 2"
proof -
  have a: "Distr ''uniform'' \<in> set [Distr ''uniform'', Help :: bool opt]"
    and b: "Distr ''uniform'' \<in> set [Count 3, Distr ''uniform'' :: bool opt]"
    and c: "''uniform'' \<noteq> ''gauss''"
    by simp_all
  from main_rejects_other_distr [OF a c, of bit_lib example_world]
    main_rejects_other_distr [OF b c, of bit_lib example_world]
  show ?thesis by simp
qed

subsection \<open>The sequential counter\<close>

text \<open>
  Claim C4, as stated, has the counter initialised to 0. The attribute \<^verbatim>\<open>_seq_int.N\<close>
  is initialised to \<open>- 1\<close>; the function increments it and then returns it, so the first
  invocation returns 0.
\<close>

theorem seq_int_consecutive_counterexample:
  "seq_N example_world = - 1 \<and> seq_N example_world \<noteq> 0
   \<and> fst (seq_int_call example_world) = 0"
  by (simp add: example_world_def initial_world_def seq_int_call_def)

text \<open>
  Claim C4, amended. The sequential-counter filler generator is backed by a process-wide
  counter that is initialised to \<open>- 1\<close> and incremented by 1 on every invocation, before
  its value is returned, with no resets within a run: \<open>n\<close> consecutive invocations from
  the initial world return \<open>0, 1, \<dots>, n - 1\<close>, from any world the integers after its
  counter, and nothing else the program runs (the other two generators, the sampler,
  \<^verbatim>\<open>print\<close>, the choice of the plan) writes the counter.
\<close>

theorem seq_int_consecutive:
  "seq_N (initial_world raw zs) = - 1
   \<and> seq_int_call w = (seq_N w + 1, w\<lparr>seq_N := seq_N w + 1\<rparr>)
   \<and> fst (seq_int_calls n (initial_world raw zs)) = map int [0..<n]
   \<and> fst (seq_int_calls n w) = map (\<lambda>i. seq_N w + 1 + int i) [0..<n]
   \<and> seq_N (snd (seq_int_calls n w)) = seq_N w + int n
   \<and> seq_N (snd (call random_int w)) = seq_N w
   \<and> seq_N (snd (call random_str w)) = seq_N w
   \<and> seq_N (snd (rng lib a w)) = seq_N w
   \<and> seq_N (print s w) = seq_N w
   \<and> seq_N (snd (other_ctors a k w)) = seq_N w"
proof -
  have "fst (seq_int_calls n (initial_world raw zs)) = map int [0..<n]"
    by (simp add: seq_int_calls_values initial_world_def)
  moreover have "seq_N (initial_world raw zs) = - 1"
    by (simp add: initial_world_def)
  moreover have "seq_int_call w = (seq_N w + 1, w\<lparr>seq_N := seq_N w + 1\<rparr>)"
    by (simp add: seq_int_call_def)
  moreover have "seq_N (snd (call random_int w)) = seq_N w"
    and "seq_N (snd (call random_str w)) = seq_N w"
    using call_frame(3) [of random_int w] call_frame(3) [of random_str w] by simp_all
  moreover have "seq_N (print s w) = seq_N w"
    by (simp add: print_def)
  ultimately show ?thesis
    using seq_int_calls_values [of n w] seq_int_calls_state [of n w] rng_frame(4) [of lib a w]
      other_ctors_frame(1) [of a k w]
    by blast
qed

theorem seq_int_consecutive_witness:
  "fst (seq_int_calls 3 example_world) = [0, 1, 2]"
  using seq_int_consecutive [of "siterate Suc 0" "siterate Not True" example_world 3]
  by (simp add: example_world_def upt_conv_Cons)

subsection \<open>The filler plan\<close>

text \<open>
  Claim C5. In CSV mode the filler plan is fixed for the run: it is drawn before any row
  is emitted (drawing it prints nothing), the loop is the iteration of one step that takes
  this one plan, and in every emitted line \<open>j\<close> the field of column \<open>i\<close> is exactly what
  the plan's entry for \<open>i\<close> produces there, whatever \<open>j\<close> is. Where the entry is
  \<^verbatim>\<open>None\<close>, which is the case exactly at the target column, the field is the string of
  the sample of line \<open>j\<close>. Otherwise it is the string of what the entry's generator
  returns when called in the world the row has reached at column \<open>i\<close>; so a column of
  the random integer holds an integer of \<open>[-1000, 1000]\<close> in every row, a column of the
  counter holds in row \<open>j\<close> the counter's value at that call, and a column of the random
  string holds one to eight lowercase letters in every row.
\<close>

theorem filler_plan_fixed:
  fixes lib :: "'f pylib" and w :: "'f world"
  assumes lib: "\<forall>v. CHR '','' \<notin> set (float_str lib v)"
    and p: "fst (parse_args lib argv w) = Inr a"
    and cfg: "csv_col a = Some k"
    and j: "j < length (emitted w (snd (main lib argv w)))"
    and i: "i < length (fst (other_ctors a k w))"
  shows "stdout (snd (other_ctors a k w)) = stdout w
    \<and> snd (main lib argv w) =
        (sample_emit (rng lib a) (print_one_csv lib (fst (other_ctors a k w))) ^^ nat (count a))
          (snd (other_ctors a k w))
    \<and> length (split_comma (emitted w (snd (main lib argv w)) ! j))
        = length (fst (other_ctors a k w))
    \<and> (case fst (other_ctors a k w) ! i of
          None \<Rightarrow> int i = k
            \<and> split_comma (emitted w (snd (main lib argv w)) ! j) ! i
                = float_str lib (gauss lib (mean a) (stdev a) (noise w !! j))
        | Some c \<Rightarrow> int i \<noteq> k \<and> c \<in> set RANDOM_CTORS
            \<and> split_comma (emitted w (snd (main lib argv w)) ! j) ! i
                = str (fst (call c
                    (cell_world lib a (fst (other_ctors a k w)) (snd (other_ctors a k w)) j i)))
            \<and> (case c of
                  random_int \<Rightarrow>
                    (\<exists>v. - 1000 \<le> v \<and> v \<le> 1000
                       \<and> split_comma (emitted w (snd (main lib argv w)) ! j) ! i = str_int v)
                | seq_int \<Rightarrow>
                    split_comma (emitted w (snd (main lib argv w)) ! j) ! i
                      = str_int (seq_N w + 1
                          + int (j * count_list (fst (other_ctors a k w)) (Some seq_int)
                                 + count_list (take i (fst (other_ctors a k w))) (Some seq_int)))
                | random_str \<Rightarrow>
                    1 \<le> length (split_comma (emitted w (snd (main lib argv w)) ! j) ! i)
                    \<and> length (split_comma (emitted w (snd (main lib argv w)) ! j) ! i) \<le> 8
                    \<and> (\<forall>ch \<in> set (split_comma (emitted w (snd (main lib argv w)) ! j) ! i).
                          ord CHR ''a'' \<le> ord ch \<and> ord ch \<le> ord CHR ''z'')))"
  using j unfolding main_formed [OF p]
  by (rule filler_plan_fixed_formed [OF lib parse_args_Inr(4) [OF p] cfg _ i])

theorem filler_plan_fixed_witness:
  "fst (other_ctors example_args 1 example_world) = [Some random_int, None, Some seq_int]
   \<and> stdout (snd (other_ctors example_args 1 example_world)) = []
   \<and> emitted example_world (snd (main bit_lib example_argv example_world))
       = [''-998,1.0,0'', ''-997,0.0,1'', ''-996,1.0,2'']
   \<and> length (split_comma
        (emitted example_world (snd (main bit_lib example_argv example_world)) ! 2)) = 3
   \<and> split_comma (emitted example_world (snd (main bit_lib example_argv example_world)) ! 2) ! 2
       = str (fst (call seq_int (cell_world bit_lib example_args
           [Some random_int, None, Some seq_int] (snd (other_ctors example_args 1 example_world))
           2 2)))
   \<and> split_comma (emitted example_world (snd (main bit_lib example_argv example_world)) ! 2) ! 2
       = str_int 2"
proof -
  have p: "fst (parse_args bit_lib example_argv example_world) = Inr example_args"
    by (simp add: example_parse)
  have cfg: "csv_col example_args = Some 1"
    by (simp add: example_args_def)
  have e: "emitted example_world (snd (main bit_lib example_argv example_world))
     = [''-998,1.0,0'', ''-997,0.0,1'', ''-996,1.0,2'']"
    unfolding example_main by (rule example_emitted)
  have j: "2 < length (emitted example_world (snd (main bit_lib example_argv example_world)))"
    unfolding e by simp
  have i: "2 < length (fst (other_ctors example_args 1 example_world))"
    by (simp add: example_plan)
  have s: "stdout example_world = []" "seq_N example_world = - 1"
    by (simp_all add: example_world_def initial_world_def)
  note f = filler_plan_fixed [OF bit_lib_contract(1) p cfg j i]
  have c1: "stdout (snd (other_ctors example_args 1 example_world)) = []"
    using f s by simp
  have c2: "length (split_comma
        (emitted example_world (snd (main bit_lib example_argv example_world)) ! 2)) = 3"
    using f [THEN conjunct2, THEN conjunct2, THEN conjunct1] by (simp add: example_plan)
  have c3: "split_comma
        (emitted example_world (snd (main bit_lib example_argv example_world)) ! 2) ! 2
       = str (fst (call seq_int (cell_world bit_lib example_args
           [Some random_int, None, Some seq_int] (snd (other_ctors example_args 1 example_world))
           2 2)))
     \<and> split_comma (emitted example_world (snd (main bit_lib example_argv example_world)) ! 2) ! 2
       = str_int 2"
    using f [THEN conjunct2, THEN conjunct2, THEN conjunct2] unfolding example_plan s
    by (simp (no_asm_use) del: call.simps) blast
  show ?thesis using example_plan e c1 c2 c3 by blast
qed

subsection \<open>The pool of generators\<close>

text \<open>
  Claim C6. Each non-target column's generator is \<^verbatim>\<open>random.choice\<close> of the four-element
  pool \<open>[random_int, seq_int, random_str, random_str]\<close>: the entry at the index that the
  column's own draw selects among the four. Of the four indices, one selects the random
  integer, one the counter and two the random string, so the string has twice the weight
  of each of the others. Column \<open>i\<close> uses draw \<open>i\<close>, or \<open>i - 1\<close> when the target column
  comes before it.
\<close>

theorem random_ctors_pool:
  "RANDOM_CTORS = [random_int, seq_int, random_str, random_str]
   \<and> length RANDOM_CTORS = 4
   \<and> fst (choice RANDOM_CTORS w) = RANDOM_CTORS ! (shd (ints w) mod 4)
   \<and> filter (\<lambda>r. RANDOM_CTORS ! r = random_int) [0..<4] = [0]
   \<and> filter (\<lambda>r. RANDOM_CTORS ! r = seq_int) [0..<4] = [1]
   \<and> filter (\<lambda>r. RANDOM_CTORS ! r = random_str) [0..<4] = [2, 3]
   \<and> count_list RANDOM_CTORS random_str = 2 * count_list RANDOM_CTORS random_int
   \<and> count_list RANDOM_CTORS random_str = 2 * count_list RANDOM_CTORS seq_int
   \<and> (i < nat (csv_col_max a) \<and> int i \<noteq> k \<longrightarrow>
        fst (other_ctors a k w) ! i =
          Some (RANDOM_CTORS ! (ints w !! (if 0 \<le> k \<and> k < int i then i - 1 else i) mod 4)))"
proof -
  have pool: "RANDOM_CTORS = [random_int, seq_int, random_str, random_str]"
    by (simp add: RANDOM_CTORS_def)
  have idx: "[0..<4] = [0, 1, 2, 3]"
    by (simp add: upt_conv_Cons)
  have "filter (\<lambda>r. RANDOM_CTORS ! r = random_int) [0..<4] = [0]"
    and "filter (\<lambda>r. RANDOM_CTORS ! r = seq_int) [0..<4] = [1]"
    and "filter (\<lambda>r. RANDOM_CTORS ! r = random_str) [0..<4] = [2, 3]"
    unfolding idx pool by simp_all
  moreover have "fst (choice RANDOM_CTORS w) = RANDOM_CTORS ! (shd (ints w) mod 4)"
    by (simp add: choice_def pool)
  moreover have "count_list RANDOM_CTORS random_str = 2 * count_list RANDOM_CTORS random_int"
    and "count_list RANDOM_CTORS random_str = 2 * count_list RANDOM_CTORS seq_int"
    unfolding pool by simp_all
  moreover have "fst (other_ctors a k w) ! i =
          Some (RANDOM_CTORS ! (ints w !! (if 0 \<le> k \<and> k < int i then i - 1 else i) mod 4))"
    if "i < nat (csv_col_max a)" "int i \<noteq> k"
    unfolding other_ctors_nth [OF that(1)] filter_neq_upt using that(2) by (simp add: pool)
  moreover have "length RANDOM_CTORS = 4" by (simp add: pool)
  ultimately show ?thesis using pool by blast
qed

theorem random_ctors_pool_witness:
  "fst (other_ctors example_args 1 example_world) ! 2 = Some (RANDOM_CTORS ! (1 mod 4))
   \<and> RANDOM_CTORS ! (1 mod 4) = seq_int
   \<and> fst (other_ctors example_args 1 example_world) = [Some random_int, None, Some seq_int]"
proof -
  have h: "2 < nat (csv_col_max example_args) \<and> int 2 \<noteq> 1"
    by (simp add: example_args_def)
  have n: "ints example_world !! 1 = 1"
    by (simp add: example_world_def initial_world_def)
  from random_ctors_pool [of example_world 2 example_args 1] h n
  have "fst (other_ctors example_args 1 example_world) ! 2 = Some (RANDOM_CTORS ! (1 mod 4))"
    by simp
  then show ?thesis by (simp add: example_plan RANDOM_CTORS_def)
qed

subsection \<open>A target column out of range\<close>

text \<open>
  Claim C7, as stated, speaks of \<^verbatim>\<open>count\<close> lines of \<^verbatim>\<open>csv-col-max\<close> fields. With
  \<^verbatim>\<open>--count 1 --csv-col 0 --csv-col-max -1\<close> the target column is out of range and the
  program prints one empty line: the line has no field at all, and no list of fields has
  length \<open>- 1\<close>.
\<close>

theorem csv_col_out_of_range_counterexample:
  "fst (parse_args bit_lib [Count 1, Csv_col 0, Csv_col_max (- 1)] example_world)
     = Inr (example_args\<lparr>count := 1, csv_col := Some 0, csv_col_max := - 1\<rparr>)
   \<and> \<not> (0 < csv_col_max (example_args\<lparr>count := 1, csv_col := Some 0, csv_col_max := - 1\<rparr>))
   \<and> main bit_lib [Count 1, Csv_col 0, Csv_col_max (- 1)] example_world
       = (Inr (), example_world\<lparr>noise := stl (noise example_world), stdout := [[]]\<rparr>)
   \<and> int (length (split_comma []))
       \<noteq> csv_col_max (example_args\<lparr>count := 1, csv_col := Some 0, csv_col_max := - 1\<rparr>)
   \<and> (\<forall>data :: string list. int (length data)
       \<noteq> csv_col_max (example_args\<lparr>count := 1, csv_col := Some 0, csv_col_max := - 1\<rparr>))"
proof -
  let ?a = "example_args\<lparr>count := 1, csv_col := Some 0, csv_col_max := - 1\<rparr>"
  have p: "fst (parse_args bit_lib [Count 1, Csv_col 0, Csv_col_max (- 1)] example_world) = Inr ?a"
    by (simp add: parse_args_def defaults_def bit_lib_def example_args_def)
  have cfg: "distr ?a = ''gauss''" "csv_col ?a = Some 0" by (simp_all add: example_args_def)
  have "main_with bit_lib ?a example_world
       = (Inr (), example_world\<lparr>noise := stl (noise example_world), stdout := [[]]\<rparr>)"
    unfolding main_csv [OF cfg] by (simp add: run_simps)
  then show ?thesis using p unfolding main_formed [OF p] by (simp add: example_args_def)
qed

text \<open>
  Claim C7, amended. If \<^verbatim>\<open>csv-col\<close> is outside \<open>[0, csv-col-max)\<close> the program does not
  fail: it emits \<open>max(count, 0)\<close> lines, each the comma-join of \<open>max(csv-col-max, 0)\<close>
  fields, so \<^verbatim>\<open>count\<close> lines of \<^verbatim>\<open>csv-col-max\<close> fields when both are non-negative. The
  plan has no \<^verbatim>\<open>None\<close> entry, every field is a result of calling the column's filler
  generator, and the sampled value is written nowhere: the run is the same for every
  float library, and for every command line that forms the same count and columns,
  whatever its mean and standard deviation.
\<close>

theorem csv_col_out_of_range:
  fixes lib :: "'f pylib" and w :: "'f world"
  assumes p: "fst (parse_args lib argv w) = Inr a"
    and cfg: "csv_col a = Some k" "k < 0 \<or> csv_col_max a \<le> k"
  shows "fst (main lib argv w) = Inr ()
    \<and> length (emitted w (snd (main lib argv w))) = nat (count a)
    \<and> length (fst (other_ctors a k w)) = nat (csv_col_max a)
    \<and> None \<notin> set (fst (other_ctors a k w))
    \<and> (\<forall>lib' m s. main lib' (argv @ [Mean m, Stdev s]) w = main lib argv w)
    \<and> (\<forall>lib' argv' a'. fst (parse_args lib' argv' w) = Inr a' \<and> count a' = count a
          \<and> csv_col a' = csv_col a \<and> csv_col_max a' = csv_col_max a
          \<longrightarrow> main lib' argv' w = main lib argv w)
    \<and> (\<forall>j < nat (count a). \<exists>data.
          emitted w (snd (main lib argv w)) ! j = join '','' data
          \<and> length data = nat (csv_col_max a)
          \<and> (0 < csv_col_max a \<longrightarrow> split_comma (emitted w (snd (main lib argv w)) ! j) = data)
          \<and> (\<forall>i < nat (csv_col_max a). \<exists>c. \<exists>v :: 'f world.
                fst (other_ctors a k w) ! i = Some c \<and> c \<in> set RANDOM_CTORS
                \<and> data ! i = str (fst (call c v))))"
proof -
  have d: "distr a = ''gauss''" by (rule parse_args_Inr(4) [OF p])
  have a: "a = namespace lib argv" by (rule parse_args_Inr(2) [OF p])
  note F = csv_col_out_of_range_formed [OF d cfg, of lib w]
  have gen: "main lib' argv' w = main lib argv w"
    if "fst (parse_args lib' argv' w) = Inr a'" "count a' = count a" "csv_col a' = csv_col a"
      "csv_col_max a' = csv_col_max a" for lib' :: "'f pylib" and argv' a'
    unfolding main_formed [OF p] main_formed [OF that(1)]
    by (rule main_with_indep [OF d parse_args_Inr(4) [OF that(1)] cfg that(2,3,4)])
  have app: "main lib' (argv @ [Mean m, Stdev s]) w = main lib argv w"
    for lib' :: "'f pylib" and m s
  proof -
    let ?argv' = "argv @ [Mean m, Stdev s]"
    have f: "formed ?argv'"
      by (rule formed_append_mean_stdev [OF parse_args_Inr(1) [OF p]])
    have p': "fst (parse_args lib' ?argv' w) = Inr (namespace lib' ?argv')"
      by (simp add: parse_args_formed [OF f])
    show ?thesis
      by (rule gen [OF p'])
         (simp_all add: namespace_append_mean_stdev a namespace_fields [of lib' argv lib])
  qed
  show ?thesis
    using F gen app unfolding main_formed [OF p] by blast
qed

theorem csv_col_out_of_range_witness:
  "fst (main bit_lib [Count 2, Csv_col 7, Csv_col_max 2] example_world) = Inr ()
   \<and> length (emitted example_world
        (snd (main bit_lib [Count 2, Csv_col 7, Csv_col_max 2] example_world))) = 2
   \<and> fst (other_ctors (example_args\<lparr>count := 2, csv_col := Some 7, csv_col_max := 2\<rparr>) 7
        example_world) = [Some random_int, Some seq_int]
   \<and> emitted example_world
        (snd (main bit_lib [Count 2, Csv_col 7, Csv_col_max 2] example_world))
       = [''-998,0'', ''-997,1'']"
proof -
  let ?a = "example_args\<lparr>count := 2, csv_col := Some 7, csv_col_max := 2\<rparr>"
  have p: "fst (parse_args bit_lib [Count 2, Csv_col 7, Csv_col_max 2] example_world) = Inr ?a"
    by (simp add: parse_args_def defaults_def bit_lib_def example_args_def)
  have cfg: "distr ?a = ''gauss''" "csv_col ?a = Some 7" "(7::int) < 0 \<or> csv_col_max ?a \<le> 7"
    by (simp_all add: example_args_def)
  have pl: "fst (other_ctors ?a 7 example_world) = [Some random_int, Some seq_int]"
    by (simp add: run_simps)
  have e: "emitted example_world
        (snd (main bit_lib [Count 2, Csv_col 7, Csv_col_max 2] example_world))
       = [''-998,0'', ''-997,1'']"
    unfolding main_formed [OF p] emitted_csv [OF cfg(1,2)] by (simp add: run_simps)
  note t = csv_col_out_of_range [OF p cfg(2,3)]
  have "fst (main bit_lib [Count 2, Csv_col 7, Csv_col_max 2] example_world) = Inr ()"
    using t by blast
  then show ?thesis using pl e by simp
qed

subsection \<open>Zero standard deviation\<close>



subsection \<open>Negative count\<close>

text \<open>
  Claim C9. For every negative \<^verbatim>\<open>--count\<close> the configuration is accepted, no line is
  emitted and the exit status is 0: the parser stores any integer, and \<^verbatim>\<open>range\<close> of a
  negative number is empty. It is stated for every formed command line whose count is
  negative.
\<close>

theorem main_negative_count:
  assumes "formed argv" "count (namespace lib argv) < 0"
  shows "parse_args lib argv w = (Inr (namespace lib argv), w)
    \<and> fst (main lib argv w) = Inr ()
    \<and> exit_status (fst (main lib argv w)) = 0
    \<and> stdout (snd (main lib argv w)) = stdout w
    \<and> emitted w (snd (main lib argv w)) = []"
proof -
  let ?a = "namespace lib argv"
  have p: "parse_args lib argv w = (Inr ?a, w)" by (rule parse_args_formed [OF assms(1)])
  then have f: "fst (parse_args lib argv w) = Inr ?a" by simp
  have d: "distr ?a = ''gauss''" by (rule parse_args_Inr(4) [OF f])
  obtain ls where "stdout (snd (main_with lib ?a w)) = stdout w @ ls" "length ls = nat (count ?a)"
    using main_stdout [OF d] by blast
  then show ?thesis
    using assms(2) p unfolding main_formed [OF f] by (simp add: main_ok [OF d] emitted_def)
qed

theorem main_negative_count_witness:
  "parse_args bit_lib [Count (- 5), Csv_col 1, Csv_col_max 3] example_world
     = (Inr (example_args\<lparr>count := - 5\<rparr>), example_world)
   \<and> fst (main bit_lib [Count (- 5), Csv_col 1, Csv_col_max 3] example_world) = Inr ()
   \<and> exit_status (fst (main bit_lib [Count (- 5), Csv_col 1, Csv_col_max 3] example_world)) = 0
   \<and> stdout (snd (main bit_lib [Count (- 5), Csv_col 1, Csv_col_max 3] example_world)) = []"
proof -
  let ?argv = "[Count (- 5), Csv_col 1, Csv_col_max 3] :: bool opt list"
  have n: "namespace bit_lib ?argv = example_args\<lparr>count := - 5\<rparr>"
    by (simp add: namespace_def defaults_def bit_lib_def example_args_def)
  have f: "formed ?argv" by (simp add: formed_def)
  have c: "count (namespace bit_lib ?argv) < 0" unfolding n by simp
  from main_negative_count [OF f c, of example_world]
  show ?thesis unfolding n by (simp add: example_world_def initial_world_def)
qed

subsection \<open>One counter for all counter columns\<close>

text \<open>
  Claim C10. All columns filled by the sequential counter share the one counter, which
  advances once per invocation: with \<open>s\<close> such columns, the counter fields of line \<open>j\<close>,
  from left to right, are the \<open>s\<close> consecutive integers starting \<open>j * s\<close> after the first
  value, so they are distinct and increase; over the whole output, line after line and
  left to right, the counter fields are consecutive integers, each one more than the one
  before; and the run advances the counter by \<open>count * s\<close>.
\<close>

theorem shared_counter_fields:
  fixes lib :: "'f pylib" and w :: "'f world"
  assumes lib: "\<forall>v. CHR '','' \<notin> set (float_str lib v)"
    and p: "fst (parse_args lib argv w) = Inr a"
    and cfg: "csv_col a = Some k"
    and j: "j < length (emitted w (snd (main lib argv w)))"
  shows "counter_fields (fst (other_ctors a k w)) (split_comma (emitted w (snd (main lib argv w)) ! j))
       = map (\<lambda>p. str_int (seq_N w + 1
                + int (j * count_list (fst (other_ctors a k w)) (Some seq_int) + p)))
           [0..<count_list (fst (other_ctors a k w)) (Some seq_int)]
    \<and> concat (map (\<lambda>l. counter_fields (fst (other_ctors a k w)) (split_comma l))
          (emitted w (snd (main lib argv w))))
       = map (\<lambda>m. str_int (seq_N w + 1 + int m))
           [0..<nat (count a) * count_list (fst (other_ctors a k w)) (Some seq_int)]
    \<and> seq_N (snd (main lib argv w))
       = seq_N w + int (nat (count a) * count_list (fst (other_ctors a k w)) (Some seq_int))"
  using j unfolding main_formed [OF p]
  by (rule shared_counter_fields_formed [OF lib parse_args_Inr(4) [OF p] cfg])

theorem shared_counter_fields_witness:
  "fst (other_ctors example_args 1 (initial_world (sconst 1) (siterate Not True)))
     = [Some seq_int, None, Some seq_int]
   \<and> emitted (initial_world (sconst 1) (siterate Not True))
        (snd (main bit_lib example_argv (initial_world (sconst 1) (siterate Not True))))
     = [''0,1.0,1'', ''2,0.0,3'', ''4,1.0,5'']
   \<and> counter_fields [Some seq_int, None, Some seq_int] (split_comma ''2,0.0,3'')
     = [str_int 2, str_int 3]
   \<and> concat (map (\<lambda>l. counter_fields [Some seq_int, None, Some seq_int] (split_comma l))
        [''0,1.0,1'', ''2,0.0,3'', ''4,1.0,5''])
     = map str_int [0, 1, 2, 3, 4, 5]"
proof -
  let ?w = "initial_world (sconst 1) (siterate Not True) :: bool world"
  have p: "fst (parse_args bit_lib example_argv ?w) = Inr example_args"
    by (simp add: example_parse)
  have cfg: "distr example_args = ''gauss''" "csv_col example_args = Some 1"
    by (simp_all add: example_args_def)
  have pl: "fst (other_ctors example_args 1 ?w) = [Some seq_int, None, Some seq_int]"
    by (simp add: run_simps)
  have e: "emitted ?w (snd (main bit_lib example_argv ?w))
      = [''0,1.0,1'', ''2,0.0,3'', ''4,1.0,5'']"
    unfolding example_main emitted_csv [OF cfg] by (simp add: run_simps)
  have j: "1 < length (emitted ?w (snd (main bit_lib example_argv ?w)))"
    unfolding e by simp
  have n: "seq_N ?w = - 1" "nat (count example_args) = 3"
    by (simp_all add: initial_world_def example_args_def)
  note t = shared_counter_fields [OF bit_lib_contract(1) p cfg(2) j]
  have "counter_fields [Some seq_int, None, Some seq_int] (split_comma ''2,0.0,3'')
     = [str_int 2, str_int 3]"
    using t [THEN conjunct1] unfolding pl e n by (simp add: upt_conv_Cons)
  moreover have "concat (map (\<lambda>l. counter_fields [Some seq_int, None, Some seq_int] (split_comma l))
        [''0,1.0,1'', ''2,0.0,3'', ''4,1.0,5''])
     = map str_int [0, 1, 2, 3, 4, 5]"
    using t [THEN conjunct2, THEN conjunct1] unfolding pl e n by (simp add: upt_conv_Cons)
  ultimately show ?thesis unfolding pl e by blast
qed

end
